theory Spec2Isabelle
  imports Main
begin

section \<open>Python values shared by both modules\<close>

text \<open>
  Exceptions. Python's \<^verbatim>\<open>except Exception\<close> catches the classes derived from
  \<^verbatim>\<open>Exception\<close> only. \<^verbatim>\<open>KeyboardInterrupt\<close> and the other direct
  subclasses of \<^verbatim>\<open>BaseException\<close> (\<^verbatim>\<open>asyncio.CancelledError\<close>,
  \<^verbatim>\<open>GeneratorExit\<close>) pass through such a handler. The string is what
  \<^verbatim>\<open>str(e)\<close> gives. \<^verbatim>\<open>SystemExit\<close> is left out: nothing in the two modules
  raises it, and neither the driver, the provider nor \<^verbatim>\<open>input\<close> does.
\<close>

datatype exn =
    Exception string
  | KeyboardInterrupt
  | BaseException string

fun is_Exception :: "exn \<Rightarrow> bool" where
  "is_Exception (Exception m) = True"
| "is_Exception KeyboardInterrupt = False"
| "is_Exception (BaseException m) = False"

fun str_exn :: "exn \<Rightarrow> string" where
  "str_exn (Exception m) = m"
| "str_exn KeyboardInterrupt = []"
| "str_exn (BaseException m) = m"

text \<open>
  The builtin \<^verbatim>\<open>range(start, stop, step)\<close>: its elements are
  \<open>start + k * step\<close> as long as they stay before \<open>stop\<close>; a zero step raises
  \<^verbatim>\<open>ValueError\<close>.
\<close>

definition py_range :: "int \<Rightarrow> int \<Rightarrow> int \<Rightarrow> exn + int list" where
  "py_range start stop step =
     (if step = 0 then Inl (Exception ''range() arg 3 must not be zero'')
      else if 0 < step then
        Inr (map (\<lambda>k. start + int k * step) [0 ..< nat ((stop - start + step - 1) div step)])
      else
        Inr (map (\<lambda>k. start + int k * step) [0 ..< nat ((start - stop - step - 1) div (- step))]))"

text \<open>
  The slice \<^verbatim>\<open>xs[i:j]\<close>: a negative bound counts from the end, and both bounds
  are clamped to the list.
\<close>

definition clamp_index :: "int \<Rightarrow> nat \<Rightarrow> nat" where
  "clamp_index i n = (if i < 0 then nat (max 0 (int n + i)) else min (nat i) n)"

definition py_slice :: "'a list \<Rightarrow> int \<Rightarrow> int \<Rightarrow> 'a list" where
  "py_slice xs i j =
     (let lo = clamp_index i (length xs); hi = clamp_index j (length xs)
      in take (hi - lo) (drop lo xs))"

section \<open>The embedding service (src/services/embeddings.py)\<close>

text \<open>
  The provider \<^verbatim>\<open>genai.embed_content(model=..., content=text)['embedding']\<close> is
  remote: it is a parameter of the model, a function of its own state \<open>'p\<close> that
  returns the vector or raises. The components of a vector are only passed on, never
  computed with, so their type \<open>'f\<close> is left open.

  Everything the service does besides returning is recorded as a list of events:
  each unit of work handed to the executor, each provider call with its outcome, and
  each line written to the logger.
\<close>

type_synonym ('p, 'f) provider = "'p \<Rightarrow> string \<Rightarrow> (exn + 'f list) \<times> 'p"

datatype 'f embed_event =
    Dispatch "string list"
  | EmbedCall string "exn + 'f list"
  | LogProgress nat int int
  | LogTotal nat
  | LogError string

text \<open>\<^verbatim>\<open>self.embedding_dim = 768\<close>, set by the constructor and read by no method.\<close>

definition embedding_dim :: nat where
  "embedding_dim = 768"

text \<open>\<^verbatim>\<open>generate_embedding\<close>: one provider call; an \<^verbatim>\<open>Exception\<close> is logged and raised again.\<close>

definition generate_embedding ::
  "('p, 'f) provider \<Rightarrow> string \<Rightarrow> 'p \<Rightarrow> (exn + 'f list) \<times> 'f embed_event list \<times> 'p" where
  "generate_embedding prov txt s =
     (case prov s txt of
        (Inr v, s') \<Rightarrow> (Inr v, [Dispatch [txt], EmbedCall txt (Inr v)], s')
      | (Inl e, s') \<Rightarrow>
          (Inl e,
           [Dispatch [txt], EmbedCall txt (Inl e)] @
             (if is_Exception e then [LogError (str_exn e)] else []),
           s'))"

text \<open>
  The list comprehension that one executor unit runs:
  \<^verbatim>\<open>[genai.embed_content(..., content=text)['embedding'] for text in b]\<close>.
  The first call that raises ends it.
\<close>

fun embed_each ::
  "('p, 'f) provider \<Rightarrow> string list \<Rightarrow> 'p \<Rightarrow> (exn + 'f list list) \<times> 'f embed_event list \<times> 'p" where
  "embed_each prov [] s = (Inr [], [], s)"
| "embed_each prov (t # ts) s =
     (case prov s t of
        (Inl e, s') \<Rightarrow> (Inl e, [EmbedCall t (Inl e)], s')
      | (Inr v, s') \<Rightarrow>
          (case embed_each prov ts s' of
             (Inl e, tr, s'') \<Rightarrow> (Inl e, EmbedCall t (Inr v) # tr, s'')
           | (Inr vs, tr, s'') \<Rightarrow> (Inr (v # vs), EmbedCall t (Inr v) # tr, s'')))"

text \<open>
  The body of \<^verbatim>\<open>for i in range(0, len(texts), batch_size)\<close>, over the indices
  the range yields; \<open>acc\<close> is \<^verbatim>\<open>all_embeddings\<close>.
\<close>

fun batch_loop ::
  "('p, 'f) provider \<Rightarrow> string list \<Rightarrow> int \<Rightarrow> int list \<Rightarrow> 'f list list \<Rightarrow> 'p
     \<Rightarrow> (exn + 'f list list) \<times> 'f embed_event list \<times> 'p" where
  "batch_loop prov texts batch_size [] acc s = (Inr acc, [], s)"
| "batch_loop prov texts batch_size (i # idxs) acc s =
     (let batch = py_slice texts i (i + batch_size) in
      case embed_each prov batch s of
        (Inl e, tr, s') \<Rightarrow> (Inl e, Dispatch batch # tr, s')
      | (Inr vs, tr, s') \<Rightarrow>
          (case batch_loop prov texts batch_size idxs (acc @ vs) s' of
             (r, tr', s'') \<Rightarrow>
               (r,
                Dispatch batch # tr @
                  LogProgress (length vs) (i div batch_size + 1)
                    ((int (length texts) + batch_size - 1) div batch_size) # tr',
                s'')))"

text \<open>
  \<^verbatim>\<open>generate_embeddings_batch\<close>. The range is built inside the \<^verbatim>\<open>try\<close>, so
  the \<^verbatim>\<open>ValueError\<close> of a zero batch size goes through the handler too. The
  handler logs an \<^verbatim>\<open>Exception\<close> and raises it again.
\<close>

definition generate_embeddings_batch ::
  "('p, 'f) provider \<Rightarrow> string list \<Rightarrow> int \<Rightarrow> 'p
     \<Rightarrow> (exn + 'f list list) \<times> 'f embed_event list \<times> 'p" where
  "generate_embeddings_batch prov texts batch_size s =
     (case (case py_range 0 (int (length texts)) batch_size of
              Inl e \<Rightarrow> (Inl e, [], s)
            | Inr idxs \<Rightarrow> batch_loop prov texts batch_size idxs [] s) of
        (Inr all_embeddings, tr, s') \<Rightarrow>
          (Inr all_embeddings, tr @ [LogTotal (length all_embeddings)], s')
      | (Inl e, tr, s') \<Rightarrow>
          (Inl e, tr @ (if is_Exception e then [LogError (str_exn e)] else []), s'))"

text \<open>What a trace shows: the units handed to the executor, and the provider calls.\<close>

fun dispatched :: "'f embed_event list \<Rightarrow> string list list" where
  "dispatched [] = []"
| "dispatched (Dispatch b # tr) = b # dispatched tr"
| "dispatched (ev # tr) = dispatched tr"

fun provider_calls :: "'f embed_event list \<Rightarrow> (string \<times> (exn + 'f list)) list" where
  "provider_calls [] = []"
| "provider_calls (EmbedCall t r # tr) = (t, r) # provider_calls tr"
| "provider_calls (ev # tr) = provider_calls tr"

fun progress_signals :: "'f embed_event list \<Rightarrow> (nat \<times> int \<times> int) list" where
  "progress_signals [] = []"
| "progress_signals (LogProgress n k m # tr) = (n, k, m) # progress_signals tr"
| "progress_signals (ev # tr) = progress_signals tr"

fun error_logs :: "'f embed_event list \<Rightarrow> string list" where
  "error_logs [] = []"
| "error_logs (LogError m # tr) = m # error_logs tr"
| "error_logs (ev # tr) = error_logs tr"

text \<open>
  For stating what a call must do: the \<open>k\<close>-th contiguous slice of length \<open>b\<close>, and
  the events of the \<open>k\<close>-th unit of work when \<open>out\<close> is the sequence returned (the unit
  is handed over, each of its texts is sent to the provider in order and answered by
  the vector at the same position of \<open>out\<close>, then the progress line is logged).
\<close>

definition chunk :: "nat \<Rightarrow> nat \<Rightarrow> 'a list \<Rightarrow> 'a list" where
  "chunk b k xs = take b (drop (k * b) xs)"

definition unit_events ::
  "nat \<Rightarrow> nat \<Rightarrow> string list \<Rightarrow> 'f list list \<Rightarrow> nat \<Rightarrow> 'f embed_event list" where
  "unit_events b m texts out k =
     Dispatch (chunk b k texts) #
     map (\<lambda>(t, v). EmbedCall t (Inr v)) (zip (chunk b k texts) (chunk b k out)) @
     [LogProgress (length (chunk b k texts)) (int k + 1) (int m)]"

text \<open>
  The number of units, as the progress line computes it:
  \<^verbatim>\<open>(len(texts) + batch_size - 1) // batch_size\<close>.
\<close>

definition num_batches :: "nat \<Rightarrow> nat \<Rightarrow> nat" where
  "num_batches n b = (n + b - 1) div b"

text \<open>
  Two providers to run the service on. Both count their calls in their state. The
  first answers the \<open>p\<close>-th call with a vector of 768 components, all \<open>p\<close>; the
  second does the same but raises on its second call.
\<close>

definition counting_provider :: "(nat, nat) provider" where
  "counting_provider p t = (Inr (replicate 768 p), Suc p)"

definition failing_provider :: "(nat, nat) provider" where
  "failing_provider p t =
     (if p = 1 then (Inl (Exception ''quota exceeded''), Suc p)
      else (Inr (replicate 768 p), Suc p))"

subsection \<open>Construction\<close>

text \<open>
  \<^verbatim>\<open>EmbeddingService.__init__\<close>: a log line, the call
  \<^verbatim>\<open>genai.configure(api_key=settings.gemini_api_key)\<close>, the dimension, a second
  log line. There is no handler around the call and no check of the key in the
  constructor itself: the configuration step is a parameter.
\<close>

datatype init_event = LogInitializing | LogInitialized nat

record embedding_service =
  service_dim :: nat

definition EmbeddingService_init ::
  "(string option \<Rightarrow> exn + unit) \<Rightarrow> string option \<Rightarrow> (exn + embedding_service) \<times> init_event list" where
  "EmbeddingService_init configure api_key =
     (case configure api_key of
        Inl e \<Rightarrow> (Inl e, [LogInitializing])
      | Inr u \<Rightarrow>
          (Inr \<lparr>service_dim = embedding_dim\<rparr>, [LogInitializing, LogInitialized embedding_dim]))"

text \<open>
  Modelled from the spec: the configuration step, which is made of
  \<^verbatim>\<open>Settings\<close> (src/config.py, not among the sources) and of the provider
  library's \<^verbatim>\<open>configure\<close>. The specification calls the credential "a required
  configuration value consumed at Embedding Pipeline construction" and says that
  construction fails "if the credential is missing or invalid". What makes a key valid
  is the provider's business: \<open>valid\<close> is a parameter.
\<close>

definition configure_credential :: "(string \<Rightarrow> bool) \<Rightarrow> string option \<Rightarrow> exn + unit" where
  "configure_credential valid api_key =
     (case api_key of
        None \<Rightarrow> Inl (Exception ''missing API credential'')
      | Some k \<Rightarrow> if valid k then Inr () else Inl (Exception ''invalid API credential''))"

section \<open>The database CLI (db_cli.py)\<close>

subsection \<open>Strings\<close>

text \<open>
  A string is a list of characters with code points 0 to 255. On these,
  \<^verbatim>\<open>str.strip()\<close> removes from both ends the characters for which
  \<^verbatim>\<open>str.isspace()\<close> holds: the codes 9 to 13, 28 to 32, 133 and 160.
  \<^verbatim>\<open>str.lower()\<close> adds 32 to the codes 65 to 90, 192 to 214 and 216 to 222.
  \<^verbatim>\<open>str.upper()\<close> subtracts 32 from the codes 97 to 122, 224 to 246 and 248 to
  254; it sends 181 to the code point 924, 255 to 376, and 223 to the two characters
  \<^verbatim>\<open>SS\<close>. Its result can thus leave the range and change length, so \<open>upper\<close>
  returns the list of code points of the result, and \<open>startswith\<close> compares such a
  list with a literal.
\<close>

definition py_isspace :: "char \<Rightarrow> bool" where
  "py_isspace c =
     (let n = (of_char c :: nat)
      in (9 \<le> n \<and> n \<le> 13) \<or> (28 \<le> n \<and> n \<le> 32) \<or> n = 133 \<or> n = 160)"

definition strip :: "string \<Rightarrow> string" where
  "strip s = rev (dropWhile py_isspace (rev (dropWhile py_isspace s)))"

definition upper_char :: "char \<Rightarrow> nat list" where
  "upper_char c =
     (let n = (of_char c :: nat)
      in if (97 \<le> n \<and> n \<le> 122) \<or> (224 \<le> n \<and> n \<le> 246) \<or> (248 \<le> n \<and> n \<le> 254)
         then [n - 32]
         else if n = 181 then [924]
         else if n = 223 then [83, 83]
         else if n = 255 then [376]
         else [n])"

definition lower_char :: "char \<Rightarrow> char" where
  "lower_char c =
     (let n = (of_char c :: nat)
      in if (65 \<le> n \<and> n \<le> 90) \<or> (192 \<le> n \<and> n \<le> 214) \<or> (216 \<le> n \<and> n \<le> 222)
         then char_of (n + 32)
         else c)"

definition upper :: "string \<Rightarrow> nat list" where
  "upper s = concat (map upper_char s)"

definition lower :: "string \<Rightarrow> string" where
  "lower s = map lower_char s"

definition startswith :: "nat list \<Rightarrow> string \<Rightarrow> bool" where
  "startswith s p = (take (length p) s = map of_char p)"

subsection \<open>The driver, the session and what it prints\<close>

text \<open>
  The driver (asyncpg) is a parameter: four operations over the state \<open>'d\<close> of the
  world outside the program (the server, the network), each returning a value or
  raising. A row is its list of columns, name and value, as \<^verbatim>\<open>dict(row)\<close> shows it.
\<close>

type_synonym handle = nat

type_synonym row = "(string \<times> string) list"

record 'd driver =
  drv_connect :: "string \<Rightarrow> 'd \<Rightarrow> (exn + handle) \<times> 'd"
  drv_close :: "handle \<Rightarrow> 'd \<Rightarrow> (exn + unit) \<times> 'd"
  drv_fetch :: "handle \<Rightarrow> string \<Rightarrow> 'd \<Rightarrow> (exn + row list) \<times> 'd"
  drv_execute :: "handle \<Rightarrow> string \<Rightarrow> 'd \<Rightarrow> (exn + string) \<times> 'd"

text \<open>One constructor for each \<^verbatim>\<open>print\<close> of the program (the banner's seven lines are one).\<close>

datatype message =
    MsgUrlNotSet
  | MsgConnected
  | MsgConnectionFailed string
  | MsgDisconnected
  | MsgNotConnected
  | MsgRows nat
  | MsgRow row
  | MsgZeroRows
  | MsgExecuted string
  | MsgQueryFailed string
  | MsgBanner
  | MsgTables "string list"
  | MsgInterrupted
  | MsgError string

text \<open>What a run does besides returning: the calls it makes to the driver, and its prints.\<close>

datatype cli_event =
    CallConnect string
  | CallClose handle
  | CallFetch handle string
  | CallExecute handle string
  | Print message

text \<open>
  \<^verbatim>\<open>DatabaseCLI\<close>: the URL read from the settings (\<^verbatim>\<open>None\<close> or a string), the
  attribute \<^verbatim>\<open>conn\<close>, and the world the driver acts on.
\<close>

record 'd cli =
  db_url :: "string option"
  conn :: "handle option"
  world :: 'd

definition DatabaseCLI :: "string option \<Rightarrow> 'd \<Rightarrow> 'd cli" where
  "DatabaseCLI url w = \<lparr>db_url = url, conn = None, world = w\<rparr>"

text \<open>
  The two states of the session, read the way the program reads them: by the test
  \<^verbatim>\<open>if self.conn\<close> of \<^verbatim>\<open>disconnect\<close> and \<^verbatim>\<open>if not self.conn\<close> of
  \<^verbatim>\<open>execute_query\<close> (a connection object is always truthy).
\<close>

datatype conn_state = Disconnected | Connected

definition state_of :: "'d cli \<Rightarrow> conn_state" where
  "state_of s = (case conn s of None \<Rightarrow> Disconnected | Some h \<Rightarrow> Connected)"

subsection \<open>connect, disconnect, execute_query\<close>

definition connect ::
  "'d driver \<Rightarrow> 'd cli \<Rightarrow> (exn + bool) \<times> cli_event list \<times> 'd cli" where
  "connect drv s =
     (case db_url s of
        None \<Rightarrow> (Inr False, [Print MsgUrlNotSet], s)
      | Some url \<Rightarrow>
          if url = [] then (Inr False, [Print MsgUrlNotSet], s)
          else
            (case drv_connect drv url (world s) of
               (Inr h, w') \<Rightarrow>
                 (Inr True, [CallConnect url, Print MsgConnected], s\<lparr>conn := Some h, world := w'\<rparr>)
             | (Inl e, w') \<Rightarrow>
                 if is_Exception e
                 then (Inr False, [CallConnect url, Print (MsgConnectionFailed (str_exn e))],
                       s\<lparr>world := w'\<rparr>)
                 else (Inl e, [CallConnect url], s\<lparr>world := w'\<rparr>)))"

text \<open>\<^verbatim>\<open>disconnect\<close> has no handler, and no assignment to \<^verbatim>\<open>self.conn\<close>.\<close>

definition disconnect ::
  "'d driver \<Rightarrow> 'd cli \<Rightarrow> (exn + unit) \<times> cli_event list \<times> 'd cli" where
  "disconnect drv s =
     (case conn s of
        None \<Rightarrow> (Inr (), [], s)
      | Some h \<Rightarrow>
          (case drv_close drv h (world s) of
             (Inr u, w') \<Rightarrow> (Inr (), [CallClose h, Print MsgDisconnected], s\<lparr>world := w'\<rparr>)
           | (Inl e, w') \<Rightarrow> (Inl e, [CallClose h], s\<lparr>world := w'\<rparr>)))"

definition execute_query ::
  "'d driver \<Rightarrow> string \<Rightarrow> 'd cli \<Rightarrow> (exn + unit) \<times> cli_event list \<times> 'd cli" where
  "execute_query drv query s =
     (case conn s of
        None \<Rightarrow> (Inr (), [Print MsgNotConnected], s)
      | Some h \<Rightarrow>
          if startswith (upper (strip query)) ''SELECT'' then
            (case drv_fetch drv h query (world s) of
               (Inr result, w') \<Rightarrow>
                 (Inr (),
                  CallFetch h query #
                    (if result \<noteq> [] then Print (MsgRows (length result)) # map (\<lambda>r. Print (MsgRow r)) result
                     else [Print MsgZeroRows]),
                  s\<lparr>world := w'\<rparr>)
             | (Inl e, w') \<Rightarrow>
                 if is_Exception e
                 then (Inr (), [CallFetch h query, Print (MsgQueryFailed (str_exn e))], s\<lparr>world := w'\<rparr>)
                 else (Inl e, [CallFetch h query], s\<lparr>world := w'\<rparr>))
          else
            (case drv_execute drv h query (world s) of
               (Inr result, w') \<Rightarrow>
                 (Inr (), [CallExecute h query, Print (MsgExecuted result)], s\<lparr>world := w'\<rparr>)
             | (Inl e, w') \<Rightarrow>
                 if is_Exception e
                 then (Inr (), [CallExecute h query, Print (MsgQueryFailed (str_exn e))], s\<lparr>world := w'\<rparr>)
                 else (Inl e, [CallExecute h query], s\<lparr>world := w'\<rparr>)))"

subsection \<open>run_interactive\<close>

text \<open>
  What \<^verbatim>\<open>input("\nsql> ")\<close> does at one turn of the loop: it returns a line or
  raises (\<^verbatim>\<open>KeyboardInterrupt\<close> on an interrupt, \<^verbatim>\<open>EOFError\<close>, an
  \<^verbatim>\<open>Exception\<close>, at the end of the input).
\<close>

datatype input_event = Line string | Raises exn

definition tables_query :: string where
  "tables_query =
     ''SELECT table_name FROM information_schema.tables '' @ [CHR 0x0A] @
     replicate 31 (CHR '' '') @ ''WHERE table_schema='' @ [CHR 0x27] @ ''public'' @ [CHR 0x27]"

text \<open>\<^verbatim>\<open>[t['table_name'] for t in tables]\<close>: a row without that column raises \<^verbatim>\<open>KeyError\<close>.\<close>

fun table_names :: "row list \<Rightarrow> exn + string list" where
  "table_names [] = Inr []"
| "table_names (t # ts) =
     (case map_of t ''table_name'' of
        None \<Rightarrow> Inl (Exception ([CHR 0x27] @ ''table_name'' @ [CHR 0x27]))
      | Some n \<Rightarrow>
          (case table_names ts of
             Inl e \<Rightarrow> Inl e
           | Inr ns \<Rightarrow> Inr (n # ns)))"

datatype control = Continue | Break

text \<open>
  The inner \<^verbatim>\<open>try\<close> block of one turn. \<^verbatim>\<open>.tables\<close> calls
  \<^verbatim>\<open>self.conn.fetch\<close> directly, which is an \<^verbatim>\<open>AttributeError\<close> when
  \<^verbatim>\<open>self.conn\<close> is \<^verbatim>\<open>None\<close>.
\<close>

definition attribute_error :: exn where
  "attribute_error =
     Exception ([CHR 0x27] @ ''NoneType'' @ [CHR 0x27] @ '' object has no attribute '' @
                [CHR 0x27] @ ''fetch'' @ [CHR 0x27])"

definition loop_body ::
  "'d driver \<Rightarrow> input_event \<Rightarrow> 'd cli \<Rightarrow> (exn + control) \<times> cli_event list \<times> 'd cli" where
  "loop_body drv inp s =
     (case inp of
        Raises e \<Rightarrow> (Inl e, [], s)
      | Line raw \<Rightarrow>
          (let query = strip raw in
           if query = [] then (Inr Continue, [], s)
           else if lower query \<in> set [''.exit'', ''.quit''] then (Inr Break, [], s)
           else if lower query = ''.tables'' then
             (case conn s of
                None \<Rightarrow> (Inl attribute_error, [], s)
              | Some h \<Rightarrow>
                  (case drv_fetch drv h tables_query (world s) of
                     (Inl e, w') \<Rightarrow> (Inl e, [CallFetch h tables_query], s\<lparr>world := w'\<rparr>)
                   | (Inr tables, w') \<Rightarrow>
                       (case table_names tables of
                          Inl e \<Rightarrow> (Inl e, [CallFetch h tables_query], s\<lparr>world := w'\<rparr>)
                        | Inr names \<Rightarrow>
                            (Inr Continue, [CallFetch h tables_query, Print (MsgTables names)],
                             s\<lparr>world := w'\<rparr>))))
           else
             (case execute_query drv query s of
                (Inl e, tr, s') \<Rightarrow> (Inl e, tr, s')
              | (Inr u, tr, s') \<Rightarrow> (Inr Continue, tr, s'))))"

text \<open>
  One turn with its handlers, in the order of the source:
  \<^verbatim>\<open>except KeyboardInterrupt\<close> prints and leaves the loop,
  \<^verbatim>\<open>except Exception\<close> prints and goes on; anything else is not caught here.
\<close>

definition iteration ::
  "'d driver \<Rightarrow> input_event \<Rightarrow> 'd cli \<Rightarrow> (exn + control) \<times> cli_event list \<times> 'd cli" where
  "iteration drv inp s =
     (case loop_body drv inp s of
        (Inr c, tr, s') \<Rightarrow> (Inr c, tr, s')
      | (Inl KeyboardInterrupt, tr, s') \<Rightarrow> (Inr Break, tr @ [Print MsgInterrupted], s')
      | (Inl (Exception m), tr, s') \<Rightarrow> (Inr Continue, tr @ [Print (MsgError m)], s')
      | (Inl (BaseException m), tr, s') \<Rightarrow> (Inl (BaseException m), tr, s'))"

text \<open>
  \<^verbatim>\<open>while True\<close> over the turns of the input source. The loop has no exit of its
  own: when the source delivers nothing more (the list is used up: \<^verbatim>\<open>input\<close>
  waits for ever, or raises \<^verbatim>\<open>EOFError\<close> at every further turn, which the handler
  prints before the next turn), the loop does not return: \<open>None\<close>.
\<close>

fun repl ::
  "'d driver \<Rightarrow> input_event list \<Rightarrow> 'd cli \<Rightarrow> ((exn + unit) \<times> cli_event list \<times> 'd cli) option" where
  "repl drv [] s = None"
| "repl drv (inp # inps) s =
     (case iteration drv inp s of
        (Inl e, tr, s') \<Rightarrow> Some (Inl e, tr, s')
      | (Inr Break, tr, s') \<Rightarrow> Some (Inr (), tr, s')
      | (Inr Continue, tr, s') \<Rightarrow>
          (case repl drv inps s' of
             None \<Rightarrow> None
           | Some (r, tr', s'') \<Rightarrow> Some (r, tr @ tr', s'')))"

text \<open>
  \<^verbatim>\<open>run_interactive\<close>: the banner, \<^verbatim>\<open>connect\<close>, and the loop inside
  \<^verbatim>\<open>try ... finally: await self.disconnect()\<close>. An exception raised by the
  \<^verbatim>\<open>finally\<close> block replaces the pending one.
\<close>

definition run_interactive ::
  "'d driver \<Rightarrow> input_event list \<Rightarrow> 'd cli \<Rightarrow> ((exn + unit) \<times> cli_event list \<times> 'd cli) option" where
  "run_interactive drv inps s =
     (case connect drv s of
        (Inl e, tr, s1) \<Rightarrow> Some (Inl e, Print MsgBanner # tr, s1)
      | (Inr False, tr, s1) \<Rightarrow> Some (Inr (), Print MsgBanner # tr, s1)
      | (Inr True, tr, s1) \<Rightarrow>
          (case repl drv inps s1 of
             None \<Rightarrow> None
           | Some (r, tr2, s2) \<Rightarrow>
               (case disconnect drv s2 of
                  (Inl e, tr3, s3) \<Rightarrow> Some (Inl e, Print MsgBanner # tr @ tr2 @ tr3, s3)
                | (Inr u, tr3, s3) \<Rightarrow> Some (r, Print MsgBanner # tr @ tr2 @ tr3, s3))))"

subsection \<open>main\<close>

text \<open>
  \<^verbatim>\<open>main\<close>, from the parsed arguments (\<^verbatim>\<open>args.interactive\<close>,
  \<^verbatim>\<open>args.query\<close>; \<^verbatim>\<open>not args.query\<close> holds for \<^verbatim>\<open>None\<close> and for the
  empty string) and a fresh \<^verbatim>\<open>DatabaseCLI\<close>. There is no
  \<^verbatim>\<open>sys.exit\<close> in the file: the interpreter ends with status 0 when
  \<^verbatim>\<open>asyncio.run(main())\<close> returns. When an exception leaves it, the interpreter
  prints the traceback and ends with status 1, or, for \<^verbatim>\<open>KeyboardInterrupt\<close>, ends
  by the interrupt signal, which the shell reports as 130.
\<close>

definition main ::
  "'d driver \<Rightarrow> bool \<Rightarrow> string option \<Rightarrow> input_event list \<Rightarrow> 'd cli
     \<Rightarrow> ((exn + unit) \<times> cli_event list \<times> 'd cli) option" where
  "main drv interactive query inps cli0 =
     (case query of
        None \<Rightarrow> run_interactive drv inps cli0
      | Some q \<Rightarrow>
          if interactive \<or> q = [] then run_interactive drv inps cli0
          else
            (case connect drv cli0 of
               (Inl e, tr, s1) \<Rightarrow> Some (Inl e, tr, s1)
             | (Inr False, tr, s1) \<Rightarrow> Some (Inr (), tr, s1)
             | (Inr True, tr, s1) \<Rightarrow>
                 (case execute_query drv q s1 of
                    (Inl e, tr2, s2) \<Rightarrow> Some (Inl e, tr @ tr2, s2)
                  | (Inr u, tr2, s2) \<Rightarrow>
                      (case disconnect drv s2 of
                         (r, tr3, s3) \<Rightarrow> Some (r, tr @ tr2 @ tr3, s3)))))"

fun exit_status :: "exn + unit \<Rightarrow> nat" where
  "exit_status (Inr u) = 0"
| "exit_status (Inl (Exception m)) = 1"
| "exit_status (Inl KeyboardInterrupt) = 130"
| "exit_status (Inl (BaseException m)) = 1"

text \<open>Reading a trace: the driver calls in it, and the handles it closes.\<close>

fun driver_calls :: "cli_event list \<Rightarrow> cli_event list" where
  "driver_calls [] = []"
| "driver_calls (Print m # tr) = driver_calls tr"
| "driver_calls (ev # tr) = ev # driver_calls tr"

fun closes :: "cli_event list \<Rightarrow> handle list" where
  "closes [] = []"
| "closes (CallClose h # tr) = h # closes tr"
| "closes (ev # tr) = closes tr"

text \<open>
  A driver to run the program on. Its world counts the calls made. It connects to one
  URL only, with handle 7; it answers \<^verbatim>\<open>SELECT 1\<close> (in any case and spacing the
  dispatch accepts) with one row, the table query with two tables, every other fetch
  with an error; it executes everything but statements that start with \<^verbatim>\<open>BAD\<close>.
\<close>

definition demo_driver :: "nat driver" where
  "demo_driver =
     \<lparr>drv_connect = (\<lambda>url w.
        if url = ''postgres://demo'' then (Inr 7, Suc w)
        else (Inl (Exception ''could not connect''), Suc w)),
      drv_close = (\<lambda>h w. (Inr (), Suc w)),
      drv_fetch = (\<lambda>h q w.
        if upper (strip q) = map of_char ''SELECT 1'' then (Inr [[(''?column?'', ''1'')]], Suc w)
        else if q = tables_query
        then (Inr [[(''table_name'', ''users'')], [(''table_name'', ''orders'')]], Suc w)
        else if upper (strip q) = map of_char ''SELECT 2 WHERE FALSE'' then (Inr [], Suc w)
        else (Inl (Exception ''syntax error''), Suc w)),
      drv_execute = (\<lambda>h q w.
        if take 3 q = ''BAD'' then (Inl (Exception ''syntax error''), Suc w)
        else (Inr ''OK'', Suc w))\<rparr>"

section \<open>Properties of the embedding service\<close>

subsection \<open>Auxiliary facts\<close>

lemma embed_each_append:
  "embed_each prov (xs @ ys) s =
     (case embed_each prov xs s of
        (Inl e, tr, s') \<Rightarrow> (Inl e, tr, s')
      | (Inr vs, tr, s') \<Rightarrow>
          (case embed_each prov ys s' of
             (Inl e, tr', s'') \<Rightarrow> (Inl e, tr @ tr', s'')
           | (Inr ws, tr', s'') \<Rightarrow> (Inr (vs @ ws), tr @ tr', s'')))"
  by (induction xs arbitrary: s) (auto split: prod.splits sum.splits)

lemma dispatched_append: "dispatched (xs @ ys) = dispatched xs @ dispatched ys"
  by (induction xs rule: dispatched.induct) auto

lemma provider_calls_append: "provider_calls (xs @ ys) = provider_calls xs @ provider_calls ys"
  by (induction xs rule: provider_calls.induct) auto

lemma progress_signals_append: "progress_signals (xs @ ys) = progress_signals xs @ progress_signals ys"
  by (induction xs rule: progress_signals.induct) auto

lemma error_logs_append: "error_logs (xs @ ys) = error_logs xs @ error_logs ys"
  by (induction xs rule: error_logs.induct) auto

lemma embed_each_ok:
  "embed_each prov ts s = (Inr vs, tr, s') \<Longrightarrow>
     length vs = length ts \<and> tr = map (\<lambda>(t, v). EmbedCall t (Inr v)) (zip ts vs)"
  by (induction ts arbitrary: s vs tr) (auto split: prod.splits sum.splits)

lemma embed_each_fail:
  "embed_each prov ts s = (Inl e, tr, s') \<Longrightarrow>
     \<exists>vs. length vs < length ts \<and>
       tr = map (\<lambda>(t, v). EmbedCall t (Inr v)) (zip ts vs) @ [EmbedCall (ts ! length vs) (Inl e)]"
proof (induction ts arbitrary: s tr)
  case Nil
  then show ?case by simp
next
  case (Cons t ts)
  show ?case
  proof (cases "prov s t")
    case (Pair r s1)
    show ?thesis
    proof (cases r)
      case (Inl e1)
      with Pair Cons.prems have "tr = [EmbedCall t (Inl e)]" by auto
      then show ?thesis by (intro exI[of _ "[]"]) simp
    next
      case (Inr v)
      with Pair Cons.prems obtain tr1 where
        1: "embed_each prov ts s1 = (Inl e, tr1, s')" and 2: "tr = EmbedCall t (Inr v) # tr1"
        by (auto split: prod.splits sum.splits)
      from Cons.IH[OF 1] obtain vs where "length vs < length ts"
        "tr1 = map (\<lambda>(t, v). EmbedCall t (Inr v)) (zip ts vs) @ [EmbedCall (ts ! length vs) (Inl e)]"
        by blast
      with 2 show ?thesis by (intro exI[of _ "v # vs"]) simp
    qed
  qed
qed

lemma slice_chunk:
  "py_slice xs (int (k * b)) (int (k * b) + int b) = take b (drop (k * b) xs)"
proof -
  have "int (k * b) + int b = int (k * b + b)" by simp
  then show ?thesis
    unfolding py_slice_def clamp_index_def Let_def
    by (simp only: nat_int of_nat_less_0_iff if_False) (auto simp: min_def)
qed

lemma nchunks_cover: "0 < b \<Longrightarrow> (n::nat) \<le> ((n + b - 1) div b) * b"
proof -
  assume b: "0 < b"
  have "n + b - 1 = ((n + b - 1) div b) * b + (n + b - 1) mod b" by simp
  moreover have "(n + b - 1) mod b \<le> b - 1" using b by (simp add: less_Suc_eq_le[symmetric] Suc_pred)
  ultimately show ?thesis using b by linarith
qed

lemma nchunks_tight: "0 < b \<Longrightarrow> k < (n + b - 1) div b \<Longrightarrow> k * b < (n::nat)"
proof -
  assume b: "0 < b" and k: "k < (n + b - 1) div b"
  then have "Suc k \<le> (n + b - 1) div b" by simp
  then have "Suc k * b \<le> ((n + b - 1) div b) * b" by (simp only: mult_le_mono1)
  also have "\<dots> \<le> n + b - 1" by simp
  finally show ?thesis using b by simp
qed

lemma embed_each_quiet:
  "embed_each prov ts s = (r, tr, s') \<Longrightarrow>
     error_logs tr = [] \<and> dispatched tr = [] \<and> progress_signals tr = []"
  by (induction ts arbitrary: s r tr) (auto split: prod.splits sum.splits)

lemma batch_loop_chunks:
  assumes b: "0 < b"
  shows "batch_loop prov texts (int b) (map (\<lambda>k. int k * int b) [k0 ..< (length texts + b - 1) div b]) acc s
       = (r, tr, s') \<Longrightarrow>
     embed_each prov (drop (k0 * b) texts) s = (r0, tr0, s0) \<Longrightarrow>
     r = map_sum id ((@) acc) r0 \<and> s' = s0 \<and> provider_calls tr = provider_calls tr0 \<and>
     error_logs tr = [] \<and>
     (\<forall>out. r = Inr out \<longrightarrow>
        dispatched tr = map (\<lambda>k. take b (drop (k * b) texts)) [k0 ..< (length texts + b - 1) div b] \<and>
        progress_signals tr = map (\<lambda>k. (length (take b (drop (k * b) texts)), int k + 1,
           int ((length texts + b - 1) div b))) [k0 ..< (length texts + b - 1) div b])"
proof (induction "(length texts + b - 1) div b - k0" arbitrary: k0 acc s r tr s' r0 tr0 s0)
  case 0
  then have ge: "(length texts + b - 1) div b \<le> k0" by simp
  have "length texts \<le> ((length texts + b - 1) div b) * b" using nchunks_cover[OF b] .
  also have "\<dots> \<le> k0 * b" using ge by (simp only: mult_le_mono1)
  finally have "drop (k0 * b) texts = []" by simp
  with 0 ge show ?case by auto
next
  case (Suc d)
  let ?m = "(length texts + b - 1) div b"
  let ?batch = "take b (drop (k0 * b) texts)"
  from Suc.hyps have lt: "k0 < ?m" by simp
  then have upt: "[k0 ..< ?m] = k0 # [Suc k0 ..< ?m]" by (simp add: upt_conv_Cons)
  have sl: "py_slice texts (int k0 * int b) (int k0 * int b + int b) = ?batch"
    using slice_chunk[of texts k0 b] by simp
  have split: "drop (k0 * b) texts = ?batch @ drop (Suc k0 * b) texts"
    by (simp add: add.commute drop_drop[symmetric] del: drop_drop)
  have idx: "int k0 * int b div int b + 1 = int k0 + 1" using b by simp
  have "int (length texts) + int b - 1 = int (length texts + b - 1)" using b by simp
  then have tot: "(int (length texts) + int b - 1) div int b = int ?m"
    by (simp only: zdiv_int)
  obtain rb trb sb where fields: "embed_each prov ?batch s = (rb, trb, sb)"
    by (cases "embed_each prov ?batch s") auto
  note quiet = embed_each_quiet[OF fields]
  have E0: "embed_each prov (drop (k0 * b) texts) s =
     (case rb of Inl e \<Rightarrow> (Inl e, trb, sb)
      | Inr vs \<Rightarrow> (case embed_each prov (drop (Suc k0 * b) texts) sb of
             (Inl e, tr', s'') \<Rightarrow> (Inl e, trb @ tr', s'')
           | (Inr ws, tr', s'') \<Rightarrow> (Inr (vs @ ws), trb @ tr', s'')))"
    by (subst split) (simp add: embed_each_append fields split: sum.splits)
  have L: "batch_loop prov texts (int b) (map (\<lambda>k. int k * int b) [k0 ..< ?m]) acc s =
     (case rb of Inl e \<Rightarrow> (Inl e, Dispatch ?batch # trb, sb)
      | Inr vs \<Rightarrow> (case batch_loop prov texts (int b) (map (\<lambda>k. int k * int b) [Suc k0 ..< ?m]) (acc @ vs) sb of
          (r, tr', s'') \<Rightarrow> (r, Dispatch ?batch # trb @ LogProgress (length vs) (int k0 + 1) (int ?m) # tr', s'')))"
    unfolding upt list.map batch_loop.simps sl fields Let_def idx tot by (simp split: sum.splits)
  show ?case
  proof (cases rb)
    case (Inl e)
    from L Inl Suc.prems(1) have R: "r = Inl e" "tr = Dispatch ?batch # trb" "s' = sb"
      by simp_all
    from E0 Inl Suc.prems(2) have R0: "r0 = Inl e" "tr0 = trb" "s0 = sb"
      by simp_all
    show ?thesis unfolding R R0 using quiet by simp
  next
    case (Inr vs)
    obtain r1 tr1 s1 where B1: "batch_loop prov texts (int b) (map (\<lambda>k. int k * int b) [Suc k0 ..< ?m]) (acc @ vs) sb = (r1, tr1, s1)"
      using prod_cases3 by blast
    obtain r2 tr2 s2 where E2: "embed_each prov (drop (Suc k0 * b) texts) sb = (r2, tr2, s2)"
      using prod_cases3 by blast
    have d: "d = ?m - Suc k0" using Suc.hyps by simp
    note IH = Suc.hyps(1)[of "Suc k0" "acc @ vs" sb r1 tr1 s1 r2 tr2 s2, OF d B1 E2]
    have lvs: "length vs = length ?batch" using embed_each_ok[of prov ?batch s vs trb sb] fields Inr by simp
    from L Inr B1 Suc.prems(1) have R: "r = r1" "tr = Dispatch ?batch # trb @ LogProgress (length vs) (int k0 + 1) (int ?m) # tr1" "s' = s1"
      by simp_all
    from E0 Inr E2 Suc.prems(2) have R0: "r0 = map_sum id ((@) vs) r2" "tr0 = trb @ tr2" "s0 = s2"
      by (cases r2, simp_all)+
    have c1: "r = map_sum id ((@) acc) r0" unfolding R R0 using IH by (cases r2) simp_all
    have c2: "s' = s0" unfolding R R0 using IH by simp
    have c3: "provider_calls tr = provider_calls tr0" unfolding R R0 using IH
      by (simp add: provider_calls_append)
    have c4: "error_logs tr = []" unfolding R using IH quiet by (simp add: error_logs_append)
    have c5: "dispatched tr = map (\<lambda>k. take b (drop (k * b) texts)) [k0 ..< ?m]" if "r = Inr out" for out
      using that IH quiet unfolding R upt by (simp add: dispatched_append)
    have c6: "progress_signals tr = map (\<lambda>k. (length (take b (drop (k * b) texts)), int k + 1,
           int ?m)) [k0 ..< ?m]" if "r = Inr out" for out
      using that IH quiet lvs unfolding R upt by (simp add: progress_signals_append)
    show ?thesis using c1 c2 c3 c4 c5 c6 by blast
  qed
qed


lemma batch_loop_prefix:
  "batch_loop prov texts B idxs acc s = (Inr out, tr, s') \<Longrightarrow> \<exists>ws. out = acc @ ws"
proof (induction idxs arbitrary: acc s tr)
  case Nil
  then show ?case by simp
next
  case (Cons i idxs)
  from Cons.prems obtain vs tr1 s1 tr2 where
    "batch_loop prov texts B idxs (acc @ vs) s1 = (Inr out, tr2, s')"
    by (auto simp: Let_def split: prod.splits sum.splits)
  from Cons.IH[OF this] show ?case by auto
qed

lemma batch_loop_trace:
  assumes b: "0 < b"
  shows "length acc = k0 * b \<Longrightarrow>
     batch_loop prov texts (int b) (map (\<lambda>k. int k * int b) [k0 ..< (length texts + b - 1) div b]) acc s
       = (Inr out, tr, s') \<Longrightarrow>
     tr = concat (map (unit_events b ((length texts + b - 1) div b) texts out) [k0 ..< (length texts + b - 1) div b])"
proof (induction "(length texts + b - 1) div b - k0" arbitrary: k0 acc s tr)
  case 0
  then show ?case by simp
next
  case (Suc d)
  let ?m = "(length texts + b - 1) div b"
  let ?batch = "take b (drop (k0 * b) texts)"
  from Suc.hyps have lt: "k0 < ?m" by simp
  then have upt: "[k0 ..< ?m] = k0 # [Suc k0 ..< ?m]" by (simp add: upt_conv_Cons)
  have sl: "py_slice texts (int k0 * int b) (int k0 * int b + int b) = ?batch"
    using slice_chunk[of texts k0 b] by simp
  have idx: "int k0 * int b div int b + 1 = int k0 + 1" using b by simp
  have "int (length texts) + int b - 1 = int (length texts + b - 1)" using b by simp
  then have tot: "(int (length texts) + int b - 1) div int b = int ?m"
    by (simp only: zdiv_int)
  obtain rb trb sb where fields: "embed_each prov ?batch s = (rb, trb, sb)"
    using prod_cases3 by blast
  have L: "batch_loop prov texts (int b) (map (\<lambda>k. int k * int b) [k0 ..< ?m]) acc s =
     (case rb of Inl e \<Rightarrow> (Inl e, Dispatch ?batch # trb, sb)
      | Inr vs \<Rightarrow> (case batch_loop prov texts (int b) (map (\<lambda>k. int k * int b) [Suc k0 ..< ?m]) (acc @ vs) sb of
          (r, tr', s'') \<Rightarrow> (r, Dispatch ?batch # trb @ LogProgress (length vs) (int k0 + 1) (int ?m) # tr', s'')))"
    unfolding upt list.map batch_loop.simps sl fields Let_def idx tot by (simp split: sum.splits)
  from L Suc.prems(2) obtain vs where rb: "rb = Inr vs" by (cases rb) simp_all
  obtain r1 tr1 s1 where B1: "batch_loop prov texts (int b) (map (\<lambda>k. int k * int b) [Suc k0 ..< ?m]) (acc @ vs) sb = (r1, tr1, s1)"
    using prod_cases3 by blast
  from L rb B1 Suc.prems(2) have R: "r1 = Inr out" "tr = Dispatch ?batch # trb @ LogProgress (length vs) (int k0 + 1) (int ?m) # tr1" "s1 = s'"
    by simp_all
  have ok: "length vs = length ?batch" "trb = map (\<lambda>(t, v). EmbedCall t (Inr v)) (zip ?batch vs)"
    using embed_each_ok[of prov ?batch s vs trb sb] fields rb by simp_all
  from batch_loop_prefix[OF B1[unfolded R]] obtain ws where out: "out = acc @ vs @ ws" by auto
  have rest: "tr1 = concat (map (unit_events b ?m texts out) [Suc k0 ..< ?m]) \<and> chunk b k0 out = vs"
  proof (cases "Suc k0 < ?m")
    case True
    then have "Suc k0 * b < length texts" using nchunks_tight[OF b] by blast
    then have full: "length ?batch = b" by simp
    have la: "length (acc @ vs) = Suc k0 * b" using Suc.prems(1) ok(1) full by simp
    have d: "d = ?m - Suc k0" using Suc.hyps by simp
    have "tr1 = concat (map (unit_events b ?m texts out) [Suc k0 ..< ?m])"
      using Suc.hyps(1)[of "Suc k0" "acc @ vs" sb tr1, OF d la] B1 R by simp
    moreover have "chunk b k0 out = vs"
      using Suc.prems(1) ok(1) full by (simp add: chunk_def out)
    ultimately show ?thesis by simp
  next
    case False
    with lt have eq: "Suc k0 = ?m" by simp
    then have e: "[Suc k0 ..< ?m] = []" by simp
    from B1 have "r1 = Inr (acc @ vs)" "tr1 = []" unfolding e by simp_all
    with R have "out = acc @ vs" by simp
    then have "chunk b k0 out = vs" using Suc.prems(1) ok(1) by (simp add: chunk_def)
    with \<open>tr1 = []\<close> show ?thesis unfolding e by simp
  qed
  show ?case
    unfolding upt R using rest ok by (simp add: unit_events_def chunk_def)
qed


lemma py_range_pos:
  assumes b: "0 < b"
  shows "py_range 0 (int n) (int b) = Inr (map (\<lambda>k. int k * int b) [0 ..< (n + b - 1) div b])"
proof -
  have "int n - 0 + int b - 1 = int (n + b - 1)" using b by simp
  then have "nat ((int n - 0 + int b - 1) div int b) = (n + b - 1) div b"
    by (simp only: zdiv_int[symmetric] nat_int)
  then show ?thesis using b by (simp add: py_range_def)
qed

lemma gen_batch_pos:
  assumes b: "0 < b"
    and g: "generate_embeddings_batch prov texts (int b) s = (r, tr, s')"
    and e: "embed_each prov texts s = (r0, tr0, s0)"
  shows "r = r0 \<and> s' = s0 \<and> provider_calls tr = provider_calls tr0 \<and>
     (\<forall>out. r = Inr out \<longrightarrow>
        tr = concat (map (unit_events b ((length texts + b - 1) div b) texts out)
               [0 ..< (length texts + b - 1) div b]) @ [LogTotal (length out)] \<and>
        dispatched tr = map (\<lambda>k. take b (drop (k * b) texts)) [0 ..< (length texts + b - 1) div b]) \<and>
     (\<forall>x. r = Inl x \<longrightarrow>
        error_logs tr = (if is_Exception x then [str_exn x] else []) \<and>
        (is_Exception x \<longrightarrow> last tr = LogError (str_exn x)))"
proof -
  let ?m = "(length texts + b - 1) div b"
  obtain r1 tr1 s1 where B: "batch_loop prov texts (int b) (map (\<lambda>k. int k * int b) [0 ..< ?m]) [] s = (r1, tr1, s1)"
    using prod_cases3 by blast
  have e': "embed_each prov (drop (0 * b) texts) s = (r0, tr0, s0)" using e by simp
  note ch = batch_loop_chunks[OF b B e']
  have r1: "r1 = r0" using ch by (cases r0) simp_all
  have G: "generate_embeddings_batch prov texts (int b) s =
     (case r1 of Inr out \<Rightarrow> (Inr out, tr1 @ [LogTotal (length out)], s1)
      | Inl x \<Rightarrow> (Inl x, tr1 @ (if is_Exception x then [LogError (str_exn x)] else []), s1))"
    unfolding generate_embeddings_batch_def py_range_pos[OF b] using B by (simp split: sum.splits)
  show ?thesis
  proof (cases r1)
    case (Inl x)
    with G g have R: "r = Inl x" "tr = tr1 @ (if is_Exception x then [LogError (str_exn x)] else [])" "s' = s1"
      by simp_all
    from r1 Inl have r0: "r0 = Inl x" by simp
    show ?thesis unfolding R using ch unfolding r0
      by (auto simp: provider_calls_append error_logs_append)
  next
    case (Inr out)
    with G g have R: "r = Inr out" "tr = tr1 @ [LogTotal (length out)]" "s' = s1"
      by simp_all
    have "tr1 = concat (map (unit_events b ?m texts out) [0 ..< ?m])"
      using batch_loop_trace[OF b, of "[]" 0 prov texts s out tr1 s1] B Inr by simp
    moreover from r1 Inr have r0: "r0 = Inr out" by simp
    ultimately show ?thesis unfolding R using ch unfolding r0
      by (auto simp: provider_calls_append dispatched_append)
  qed
qed

lemma gen_batch_nonpos:
  assumes "B \<le> 0" and "generate_embeddings_batch prov texts B s = (r, tr, s')"
  shows "provider_calls tr = []"
proof (cases "B = 0")
  case True
  with assms(2) show ?thesis by (auto simp: generate_embeddings_batch_def py_range_def)
next
  case False
  with assms(1) have neg: "B < 0" by simp
  have "(0 - int (length texts) - B - 1) div (- B) \<le> 0"
  proof -
    have "(0 - int (length texts) - B - 1) div (- B) \<le> (- B - 1) div (- B)"
      using neg by (intro zdiv_mono1) simp_all
    also have "\<dots> = 0" using neg by (simp add: div_pos_pos_trivial)
    finally show ?thesis .
  qed
  then have "py_range 0 (int (length texts)) B = Inr []" using neg by (simp add: py_range_def)
  with assms(2) show ?thesis by (auto simp: generate_embeddings_batch_def)
qed

lemma concat_chunks_take:
  "concat (map (\<lambda>k. take b (drop (k * b) xs)) [0 ..< m]) = take (m * b) xs"
proof (induction m)
  case 0
  show ?case by simp
next
  case (Suc m)
  have "take (m * b) xs @ take b (drop (m * b) xs) = take (m * b + b) xs"
    by (simp add: take_add)
  with Suc show ?case by (simp add: add.commute)
qed

lemma concat_chunks:
  assumes "0 < b"
  shows "concat (map (\<lambda>k. chunk b k xs) [0 ..< num_batches (length xs) b]) = xs"
  unfolding chunk_def num_batches_def concat_chunks_take
  using nchunks_cover[OF assms, of "length xs"] by simp

lemma chunk_size:
  assumes "0 < b" and "k < num_batches (length xs) b"
  shows "1 \<le> length (chunk b k xs) \<and> length (chunk b k xs) \<le> b"
proof -
  have "k * b < length xs" using nchunks_tight[OF assms(1)] assms(2) unfolding num_batches_def by blast
  then show ?thesis using assms(1) by (simp add: chunk_def)
qed

lemma provider_calls_ok:
  "provider_calls (map (\<lambda>(t, v). EmbedCall t (Inr v)) (zip ts vs)) = zip ts (map Inr vs)"
  by (induction ts vs rule: list_induct2') simp_all

lemma embed_each_results:
  "embed_each prov ts s = (Inr vs, tr, s') \<Longrightarrow> \<forall>v\<in>set vs. \<exists>p t p'. prov p t = (Inr v, p')"
proof (induction ts arbitrary: s vs tr)
  case Nil
  then show ?case by simp
next
  case (Cons t ts)
  from Cons.prems obtain v s1 ws tr1 where
    1: "prov s t = (Inr v, s1)" and 2: "embed_each prov ts s1 = (Inr ws, tr1, s')" and 3: "vs = v # ws"
    by (auto split: prod.splits sum.splits)
  from Cons.IH[OF 2] 1 3 show ?case by auto
qed

subsection \<open>Batches, order and dimension\<close>

text \<open>
  C1. A call with \<open>batch_size \<ge> 1\<close> that returns \<open>out\<close> has handed the executor
  exactly the contiguous slices of \<open>texts\<close> of length \<open>batch_size\<close> (the last one
  shorter), in input order: they concatenate to \<open>texts\<close> and each has between 1 and
  \<open>batch_size\<close> elements. Its whole trace is unit after unit, each unit made of the
  hand-over, one provider call per text of the slice in order, and the progress line;
  so a unit starts only after the one before it has ended. The provider was called
  once per text, in input order, and the \<open>i\<close>-th element of \<open>out\<close> is the answer to the
  call on the \<open>i\<close>-th text; \<open>out\<close> has as many elements as \<open>texts\<close>. The service
  passes the vectors on unchanged, so when the provider answers with vectors of 768
  components only (the dimension of the configured model), each element of \<open>out\<close>
  has 768 components.
\<close>

theorem generate_embeddings_batch_partition:
  assumes B: "1 \<le> batch_size"
    and g: "generate_embeddings_batch prov texts batch_size s = (Inr out, tr, s')"
  shows "dispatched tr =
       map (\<lambda>k. chunk (nat batch_size) k texts) [0 ..< num_batches (length texts) (nat batch_size)]
     \<and> concat (dispatched tr) = texts
     \<and> (\<forall>b \<in> set (dispatched tr). 1 \<le> length b \<and> int (length b) \<le> batch_size)
     \<and> tr = concat (map (unit_events (nat batch_size) (num_batches (length texts) (nat batch_size)) texts out)
               [0 ..< num_batches (length texts) (nat batch_size)]) @ [LogTotal (length texts)]
     \<and> provider_calls tr = zip texts (map Inr out)
     \<and> length out = length texts
     \<and> (\<forall>i < length texts. provider_calls tr ! i = (texts ! i, Inr (out ! i)))
     \<and> ((\<forall>p t v p'. prov p t = (Inr v, p') \<longrightarrow> length v = embedding_dim)
          \<longrightarrow> (\<forall>v \<in> set out. length v = embedding_dim))"
proof -
  define b where "b = nat batch_size"
  have b: "0 < b" and bs: "batch_size = int b" using B by (simp_all add: b_def)
  obtain r0 tr0 s0 where e: "embed_each prov texts s = (r0, tr0, s0)" using prod_cases3 by blast
  note ch = gen_batch_pos[OF b g[unfolded bs] e]
  from ch have r0: "r0 = Inr out" by simp
  from ch have ch_d: "dispatched tr = map (\<lambda>k. take b (drop (k * b) texts)) [0 ..< (length texts + b - 1) div b]"
    by blast
  from ch have ch_t: "tr = concat (map (unit_events b ((length texts + b - 1) div b) texts out)
               [0 ..< (length texts + b - 1) div b]) @ [LogTotal (length out)]"
    by blast
  from ch have ch_p: "provider_calls tr = provider_calls tr0" by blast
  note ok = embed_each_ok[OF e[unfolded r0]]
  have len: "length out = length texts" using ok by simp
  have d: "dispatched tr = map (\<lambda>k. chunk b k texts) [0 ..< num_batches (length texts) b]"
    unfolding ch_d by (simp add: chunk_def num_batches_def)
  have c: "concat (dispatched tr) = texts" unfolding d by (rule concat_chunks[OF b])
  have sz: "\<forall>x \<in> set (dispatched tr). 1 \<le> length x \<and> int (length x) \<le> batch_size"
    unfolding d bs using chunk_size[OF b, of _ texts] by auto
  have t: "tr = concat (map (unit_events b (num_batches (length texts) b) texts out)
               [0 ..< num_batches (length texts) b]) @ [LogTotal (length texts)]"
    using ch_t unfolding len num_batches_def .
  have pc: "provider_calls tr = zip texts (map Inr out)"
    unfolding ch_p using ok by (simp add: provider_calls_ok)
  have nth: "\<forall>i < length texts. provider_calls tr ! i = (texts ! i, Inr (out ! i))"
    unfolding pc using len by simp
  have dim: "(\<forall>p t v p'. prov p t = (Inr v, p') \<longrightarrow> length v = embedding_dim)
          \<longrightarrow> (\<forall>v \<in> set out. length v = embedding_dim)"
    using embed_each_results[OF e[unfolded r0]] by blast
  show ?thesis using d c sz t pc len nth dim unfolding b_def by blast
qed


text \<open>
  The scenario of the specification: three texts and \<open>batch_size = 2\<close> give two units,
  of sizes 2 and 1, and three vectors in input order.
\<close>

lemma run_three_texts:
  "generate_embeddings_batch counting_provider [''a'', ''b'', ''c''] 2 0 =
     (Inr [replicate 768 0, replicate 768 1, replicate 768 2],
      [Dispatch [''a'', ''b''],
       EmbedCall ''a'' (Inr (replicate 768 0)), EmbedCall ''b'' (Inr (replicate 768 1)),
       LogProgress 2 1 2,
       Dispatch [''c''],
       EmbedCall ''c'' (Inr (replicate 768 2)),
       LogProgress 1 2 2,
       LogTotal 3],
      3)"
  by (simp add: generate_embeddings_batch_def py_range_def py_slice_def clamp_index_def
      counting_provider_def upt_rec Let_def numeral_2_eq_2 numeral_3_eq_3)

theorem generate_embeddings_batch_partition_witness:
  "(1::int) \<le> 2
   \<and> generate_embeddings_batch counting_provider [''a'', ''b'', ''c''] 2 0 =
     (Inr [replicate 768 0, replicate 768 1, replicate 768 2],
      [Dispatch [''a'', ''b''],
       EmbedCall ''a'' (Inr (replicate 768 0)), EmbedCall ''b'' (Inr (replicate 768 1)),
       LogProgress 2 1 2,
       Dispatch [''c''],
       EmbedCall ''c'' (Inr (replicate 768 2)),
       LogProgress 1 2 2,
       LogTotal 3],
      3)
   \<and> dispatched
       [Dispatch [''a'', ''b''],
        EmbedCall ''a'' (Inr (replicate 768 (0::nat))), EmbedCall ''b'' (Inr (replicate 768 1)),
        LogProgress 2 1 2,
        Dispatch [''c''],
        EmbedCall ''c'' (Inr (replicate 768 2)),
        LogProgress 1 2 2,
        LogTotal 3] = [[''a'', ''b''], [''c'']]
   \<and> map length [replicate 768 (0::nat), replicate 768 1, replicate 768 2] = [768, 768, 768]
   \<and> length [replicate 768 (0::nat), replicate 768 1, replicate 768 2] = length [''a'', ''b'', ''c'']"
proof -
  have h: "(1::int) \<le> 2" by simp
  have dim: "\<forall>p t v p'. counting_provider p t = (Inr v, p') \<longrightarrow> length v = embedding_dim"
    by (auto simp: counting_provider_def embedding_dim_def)
  note th = generate_embeddings_batch_partition[OF h run_three_texts]
  from th dim have "\<forall>v \<in> set [replicate 768 (0::nat), replicate 768 1, replicate 768 2]. length v = embedding_dim"
    by blast
  with th h run_three_texts show ?thesis by (simp add: embedding_dim_def)
qed


subsection \<open>A failing provider call\<close>

lemma provider_calls_fail:
  "provider_calls (map (\<lambda>(t, v). EmbedCall t (Inr v)) (zip ts vs) @ [EmbedCall u (Inl e)])
     = zip ts (map Inr vs) @ [(u, Inl e)]"
  by (simp add: provider_calls_append provider_calls_ok)

text \<open>
  C5. If any provider call of a batch call fails with \<open>e\<close>, the whole call fails with
  \<open>e\<close>: the caller gets the exception and no sequence of vectors. An \<^verbatim>\<open>Exception\<close>
  is logged once, as the last event, before it is raised again (an exception outside
  \<^verbatim>\<open>Exception\<close>, such as an interrupt, passes the handler unlogged). The failed call
  is the last provider call made: the texts before it were each sent once and answered,
  the failed text was sent once and not again, and no later text was sent.
\<close>

theorem generate_embeddings_batch_all_or_nothing:
  assumes g: "generate_embeddings_batch prov texts batch_size s = (r, tr, s')"
    and f: "(t, Inl e) \<in> set (provider_calls tr)"
  shows "r = Inl e
     \<and> error_logs tr = (if is_Exception e then [str_exn e] else [])
     \<and> (is_Exception e \<longrightarrow> last tr = LogError (str_exn e))
     \<and> (\<exists>vs. length vs < length texts \<and> t = texts ! length vs
            \<and> provider_calls tr = zip texts (map Inr vs) @ [(t, Inl e)])"
proof (cases "batch_size \<le> 0")
  case True
  from gen_batch_nonpos[OF True g] f show ?thesis by simp
next
  case False
  define b where "b = nat batch_size"
  have b: "0 < b" and bs: "batch_size = int b" using False by (simp_all add: b_def)
  obtain r0 tr0 s0 where e: "embed_each prov texts s = (r0, tr0, s0)" using prod_cases3 by blast
  note ch = gen_batch_pos[OF b g[unfolded bs] e]
  from ch have ch_r: "r = r0" and ch_p: "provider_calls tr = provider_calls tr0" by blast+
  show ?thesis
  proof (cases r0)
    case (Inr out)
    from embed_each_ok[OF e[unfolded Inr]] have "provider_calls tr0 = zip texts (map Inr out)"
      by (simp add: provider_calls_ok)
    with f ch_p have "(t, Inl e) \<in> set (zip texts (map Inr out))" by simp
    then have "Inl e \<in> set (map Inr out)" by (rule set_zip_rightD)
    then show ?thesis by auto
  next
    case (Inl x)
    from embed_each_fail[OF e[unfolded Inl]] obtain vs where
      lv: "length vs < length texts" and
      t0: "tr0 = map (\<lambda>(t, v). EmbedCall t (Inr v)) (zip texts vs) @ [EmbedCall (texts ! length vs) (Inl x)]"
      by blast
    have pc: "provider_calls tr = zip texts (map Inr vs) @ [(texts ! length vs, Inl x)]"
      unfolding ch_p t0 by (rule provider_calls_fail)
    from f have "(t, Inl e) \<in> set (zip texts (map Inr vs)) \<or> (t, Inl e) = (texts ! length vs, Inl x)"
      unfolding pc by auto
    moreover have "(t, Inl e) \<notin> set (zip texts (map Inr vs))"
    proof
      assume "(t, Inl e) \<in> set (zip texts (map Inr vs))"
      then have "Inl e \<in> set (map Inr vs)" by (rule set_zip_rightD)
      then show False by auto
    qed
    ultimately have te: "t = texts ! length vs" "x = e" by simp_all
    from ch ch_r Inl te have lg: "error_logs tr = (if is_Exception e then [str_exn e] else [])"
      "is_Exception e \<longrightarrow> last tr = LogError (str_exn e)" by simp_all
    show ?thesis using ch_r Inl te lg lv pc by blast
  qed
qed

lemma run_failing:
  "generate_embeddings_batch failing_provider [''a'', ''b'', ''c''] 2 0 =
     (Inl (Exception ''quota exceeded''),
      [Dispatch [''a'', ''b''],
       EmbedCall ''a'' (Inr (replicate 768 0)),
       EmbedCall ''b'' (Inl (Exception ''quota exceeded'')),
       LogError ''quota exceeded''],
      2)"
  by (simp add: generate_embeddings_batch_def py_range_def py_slice_def clamp_index_def
      failing_provider_def upt_rec Let_def numeral_2_eq_2 numeral_3_eq_3)

theorem generate_embeddings_batch_all_or_nothing_witness:
  "generate_embeddings_batch failing_provider [''a'', ''b'', ''c''] 2 0 =
     (Inl (Exception ''quota exceeded''),
      [Dispatch [''a'', ''b''],
       EmbedCall ''a'' (Inr (replicate 768 0)),
       EmbedCall ''b'' (Inl (Exception ''quota exceeded'')),
       LogError ''quota exceeded''],
      2)
   \<and> (''b'', Inl (Exception ''quota exceeded'')) \<in> set (provider_calls
      [Dispatch [''a'', ''b''],
       EmbedCall ''a'' (Inr (replicate 768 (0::nat))),
       EmbedCall ''b'' (Inl (Exception ''quota exceeded'')),
       LogError ''quota exceeded''])
   \<and> error_logs
      [Dispatch [''a'', ''b''],
       EmbedCall ''a'' (Inr (replicate 768 (0::nat))),
       EmbedCall ''b'' (Inl (Exception ''quota exceeded'')),
       LogError ''quota exceeded''] = [''quota exceeded'']
   \<and> is_Exception (Exception ''quota exceeded'')"
proof -
  have f: "(''b'', Inl (Exception ''quota exceeded'')) \<in> set (provider_calls
      [Dispatch [''a'', ''b''],
       EmbedCall ''a'' (Inr (replicate 768 (0::nat))),
       EmbedCall ''b'' (Inl (Exception ''quota exceeded'')),
       LogError ''quota exceeded''])" by simp
  from generate_embeddings_batch_all_or_nothing[OF run_failing f] run_failing f
  show ?thesis by simp
qed

subsection \<open>The empty input\<close>

text \<open>
  C10. For the empty input and every \<open>batch_size \<ge> 1\<close> the call returns the empty
  sequence; its only event is the closing log line with the total 0, so it makes no
  provider call, hands nothing to the executor and emits no progress line, and the
  provider's state is untouched.
\<close>

theorem generate_embeddings_batch_empty:
  assumes "1 \<le> batch_size"
  shows "generate_embeddings_batch prov [] batch_size s = (Inr [], [LogTotal 0], s)
     \<and> provider_calls (fst (snd (generate_embeddings_batch prov [] batch_size s))) = []
     \<and> progress_signals (fst (snd (generate_embeddings_batch prov [] batch_size s))) = []
     \<and> dispatched (fst (snd (generate_embeddings_batch prov [] batch_size s))) = []"
proof -
  have "(batch_size - 1) div batch_size = 0" using assms by (simp add: div_pos_pos_trivial)
  then have "py_range 0 (int (length ([]::string list))) batch_size = Inr []"
    using assms by (simp add: py_range_def)
  then have "generate_embeddings_batch prov [] batch_size s = (Inr [], [LogTotal 0], s)"
    by (simp add: generate_embeddings_batch_def)
  then show ?thesis by simp
qed

theorem generate_embeddings_batch_empty_witness:
  "(1::int) \<le> 100
   \<and> generate_embeddings_batch counting_provider [] 100 0 = (Inr [], [LogTotal 0], 0)"
  using generate_embeddings_batch_empty[of 100 counting_provider 0] by simp

section \<open>Properties of the database CLI\<close>

subsection \<open>Auxiliary facts\<close>

lemma driver_calls_append: "driver_calls (xs @ ys) = driver_calls xs @ driver_calls ys"
  by (induction xs rule: driver_calls.induct) auto

lemma closes_append: "closes (xs @ ys) = closes xs @ closes ys"
  by (induction xs rule: closes.induct) auto

lemma closes_rows: "closes (map (\<lambda>r. Print (MsgRow r)) rows) = []"
  by (induction rows) auto

lemma execute_query_keeps:
  "execute_query drv q s = (r, tr, s') \<Longrightarrow> conn s' = conn s \<and> db_url s' = db_url s \<and> closes tr = []"
  by (auto simp: execute_query_def closes_append closes_rows split: option.splits if_splits prod.splits sum.splits)

lemma loop_body_keeps:
  "loop_body drv inp s = (r, tr, s') \<Longrightarrow> conn s' = conn s \<and> closes tr = []"
  by (auto simp: loop_body_def Let_def dest: execute_query_keeps
      split: input_event.splits option.splits if_splits prod.splits sum.splits)

lemma iteration_keeps:
  "iteration drv inp s = (r, tr, s') \<Longrightarrow> conn s' = conn s \<and> closes tr = []"
  by (auto simp: iteration_def closes_append dest: loop_body_keeps
      split: prod.splits sum.splits exn.splits)

lemma repl_keeps:
  "repl drv inps s = Some (r, tr, s') \<Longrightarrow> conn s' = conn s \<and> closes tr = []"
proof (induction inps arbitrary: s r tr s')
  case Nil
  then show ?case by simp
next
  case (Cons inp inps)
  obtain c tr1 s1 where it: "iteration drv inp s = (c, tr1, s1)" using prod_cases3 by blast
  note k = iteration_keeps[OF it]
  show ?case
  proof (cases c)
    case (Inl e)
    with Cons.prems it k show ?thesis by simp
  next
    case (Inr ctl)
    show ?thesis
    proof (cases ctl)
      case Break
      with Cons.prems it k Inr show ?thesis by simp
    next
      case Continue
      with Cons.prems it Inr obtain tr2 where
        r2: "repl drv inps s1 = Some (r, tr2, s')" and t: "tr = tr1 @ tr2"
        by (auto split: option.splits)
      from Cons.IH[OF r2] k t show ?thesis by (simp add: closes_append)
    qed
  qed
qed


lemma demo_connect:
  "drv_connect demo_driver url w =
     (if url = ''postgres://demo'' then (Inr 7, Suc w) else (Inl (Exception ''could not connect''), Suc w))"
  by (simp add: demo_driver_def)

lemma demo_close: "drv_close demo_driver h w = (Inr (), Suc w)"
  by (simp add: demo_driver_def)

lemma demo_fetch:
  "drv_fetch demo_driver h q w =
     (if upper (strip q) = map of_char ''SELECT 1'' then (Inr [[(''?column?'', ''1'')]], Suc w)
      else if q = tables_query
      then (Inr [[(''table_name'', ''users'')], [(''table_name'', ''orders'')]], Suc w)
      else if upper (strip q) = map of_char ''SELECT 2 WHERE FALSE'' then (Inr [], Suc w)
      else (Inl (Exception ''syntax error''), Suc w))"
  by (simp add: demo_driver_def)

lemma demo_execute:
  "drv_execute demo_driver h q w =
     (if take 3 q = ''BAD'' then (Inl (Exception ''syntax error''), Suc w) else (Inr ''OK'', Suc w))"
  by (simp add: demo_driver_def)

subsection \<open>connect\<close>

text \<open>
  C7. \<^verbatim>\<open>connect\<close> returns false, with nothing raised, when the connection string
  is absent or empty (the driver is then not called at all) and when the driver's
  connect raises an \<^verbatim>\<open>Exception\<close>; in both cases the stored handle is what it was,
  so a disconnected session stays disconnected. When the driver's connect returns a
  handle, \<^verbatim>\<open>connect\<close> stores it and returns true. The only exceptions that leave
  \<^verbatim>\<open>connect\<close> are those outside \<^verbatim>\<open>Exception\<close> (an interrupt), and they store
  no handle either.
\<close>

theorem connect_outcomes:
  "((db_url s = None \<or> db_url s = Some []) \<longrightarrow> connect drv s = (Inr False, [Print MsgUrlNotSet], s))
   \<and> (\<forall>url m w'. db_url s = Some url \<and> url \<noteq> [] \<and>
          drv_connect drv url (world s) = (Inl (Exception m), w') \<longrightarrow>
        connect drv s =
          (Inr False, [CallConnect url, Print (MsgConnectionFailed m)], s\<lparr>world := w'\<rparr>))
   \<and> (\<forall>url h w'. db_url s = Some url \<and> url \<noteq> [] \<and>
          drv_connect drv url (world s) = (Inr h, w') \<longrightarrow>
        connect drv s =
          (Inr True, [CallConnect url, Print MsgConnected], s\<lparr>conn := Some h, world := w'\<rparr>))
   \<and> (\<forall>tr s'. connect drv s = (Inr False, tr, s') \<longrightarrow>
          conn s' = conn s \<and> (state_of s = Disconnected \<longrightarrow> state_of s' = Disconnected))
   \<and> (\<forall>tr s'. connect drv s = (Inr True, tr, s') \<longrightarrow> state_of s' = Connected)
   \<and> (\<forall>e tr s'. connect drv s = (Inl e, tr, s') \<longrightarrow> \<not> is_Exception e \<and> conn s' = conn s)"
  by (auto simp: connect_def state_of_def split: option.splits prod.splits sum.splits if_splits)

theorem connect_outcomes_witness:
  "connect demo_driver (DatabaseCLI (Some []) (0::nat)) =
     (Inr False, [Print MsgUrlNotSet], DatabaseCLI (Some []) 0)
   \<and> connect demo_driver (DatabaseCLI None (0::nat)) =
     (Inr False, [Print MsgUrlNotSet], DatabaseCLI None 0)
   \<and> state_of (DatabaseCLI (Some []) (0::nat)) = Disconnected
   \<and> connect demo_driver (DatabaseCLI (Some ''postgres://other'') 0) =
     (Inr False, [CallConnect ''postgres://other'', Print (MsgConnectionFailed ''could not connect'')],
      \<lparr>db_url = Some ''postgres://other'', conn = None, world = 1\<rparr>)
   \<and> state_of \<lparr>db_url = Some ''postgres://other'', conn = None, world = 1::nat\<rparr> = Disconnected
   \<and> connect demo_driver (DatabaseCLI (Some ''postgres://demo'') 0) =
     (Inr True, [CallConnect ''postgres://demo'', Print MsgConnected],
      \<lparr>db_url = Some ''postgres://demo'', conn = Some 7, world = 1\<rparr>)"
  using connect_outcomes[of "DatabaseCLI (Some []) (0::nat)" demo_driver]
    connect_outcomes[of "DatabaseCLI None (0::nat)" demo_driver]
    connect_outcomes[of "DatabaseCLI (Some ''postgres://other'') (0::nat)" demo_driver]
    connect_outcomes[of "DatabaseCLI (Some ''postgres://demo'') (0::nat)" demo_driver]
  by (simp add: DatabaseCLI_def demo_connect state_of_def)

subsection \<open>disconnect\<close>

text \<open>
  The claim that \<^verbatim>\<open>disconnect\<close> clears the handle fails: after a successful
  \<^verbatim>\<open>disconnect\<close> the handle 7 is still stored, the session still reads as
  connected by its own test, and a second \<^verbatim>\<open>disconnect\<close> is not a no-op but closes
  handle 7 again.
\<close>

theorem disconnect_clears_handle_counterexample:
  "disconnect demo_driver \<lparr>db_url = Some ''postgres://demo'', conn = Some 7, world = 1\<rparr> =
     (Inr (), [CallClose 7, Print MsgDisconnected],
      \<lparr>db_url = Some ''postgres://demo'', conn = Some 7, world = 2\<rparr>)
   \<and> conn \<lparr>db_url = Some ''postgres://demo'', conn = Some 7, world = 2::nat\<rparr> \<noteq> None
   \<and> state_of \<lparr>db_url = Some ''postgres://demo'', conn = Some 7, world = 2::nat\<rparr> \<noteq> Disconnected
   \<and> disconnect demo_driver \<lparr>db_url = Some ''postgres://demo'', conn = Some 7, world = 2\<rparr> =
     (Inr (), [CallClose 7, Print MsgDisconnected],
      \<lparr>db_url = Some ''postgres://demo'', conn = Some 7, world = 3\<rparr>)"
  by (simp add: disconnect_def demo_close state_of_def)

text \<open>
  C4, amended. \<^verbatim>\<open>disconnect\<close> is a no-op when no handle is stored. When a handle
  is stored it calls the driver's close on it, once, and prints the confirmation when
  close returns; when close raises, the exception leaves \<^verbatim>\<open>disconnect\<close>. In every
  case the stored handle stays what it was: it is closed, not cleared. Called again
  after a successful call it closes the same handle once more, again without error
  when the driver's close returns.
\<close>

theorem disconnect_closes_stored_handle:
  "(conn s = None \<longrightarrow> disconnect drv s = (Inr (), [], s))
   \<and> (\<forall>h w'. conn s = Some h \<and> drv_close drv h (world s) = (Inr (), w') \<longrightarrow>
         disconnect drv s = (Inr (), [CallClose h, Print MsgDisconnected], s\<lparr>world := w'\<rparr>))
   \<and> (\<forall>h e w'. conn s = Some h \<and> drv_close drv h (world s) = (Inl e, w') \<longrightarrow>
         disconnect drv s = (Inl e, [CallClose h], s\<lparr>world := w'\<rparr>))
   \<and> (\<forall>r tr s'. disconnect drv s = (r, tr, s') \<longrightarrow>
         conn s' = conn s \<and> state_of s' = state_of s
         \<and> closes tr = (case conn s of None \<Rightarrow> [] | Some h \<Rightarrow> [h]))
   \<and> (\<forall>h w' w''. conn s = Some h \<and> drv_close drv h (world s) = (Inr (), w')
           \<and> drv_close drv h w' = (Inr (), w'') \<longrightarrow>
         disconnect drv (s\<lparr>world := w'\<rparr>) =
           (Inr (), [CallClose h, Print MsgDisconnected], s\<lparr>world := w''\<rparr>))"
  by (auto simp: disconnect_def state_of_def split: option.splits prod.splits sum.splits)

theorem disconnect_closes_stored_handle_witness:
  "conn (DatabaseCLI (Some ''postgres://demo'') (0::nat)) = None
   \<and> disconnect demo_driver (DatabaseCLI (Some ''postgres://demo'') 0) =
       (Inr (), [], DatabaseCLI (Some ''postgres://demo'') 0)
   \<and> conn \<lparr>db_url = Some ''postgres://demo'', conn = Some 7, world = 1::nat\<rparr> = Some 7
   \<and> drv_close demo_driver 7 1 = (Inr (), 2)
   \<and> drv_close demo_driver 7 2 = (Inr (), 3)
   \<and> disconnect demo_driver \<lparr>db_url = Some ''postgres://demo'', conn = Some 7, world = 1\<rparr> =
     (Inr (), [CallClose 7, Print MsgDisconnected],
      \<lparr>db_url = Some ''postgres://demo'', conn = Some 7, world = 2\<rparr>)
   \<and> disconnect demo_driver \<lparr>db_url = Some ''postgres://demo'', conn = Some 7, world = 2\<rparr> =
     (Inr (), [CallClose 7, Print MsgDisconnected],
      \<lparr>db_url = Some ''postgres://demo'', conn = Some 7, world = 3\<rparr>)"
proof -
  let ?S0 = "DatabaseCLI (Some ''postgres://demo'') (0::nat)"
  let ?Sa = "\<lparr>db_url = Some ''postgres://demo'', conn = Some 7, world = 1::nat\<rparr>"
  have n: "conn ?S0 = None" by (simp add: DatabaseCLI_def)
  have c: "conn ?Sa = Some 7" by simp
  have c1: "drv_close demo_driver 7 (world ?Sa) = (Inr (), 2)" by (simp add: demo_close)
  have c2: "drv_close demo_driver 7 2 = (Inr (), 3)" by (simp add: demo_close)
  from disconnect_closes_stored_handle[of ?S0 demo_driver] n
  have a: "disconnect demo_driver ?S0 = (Inr (), [], ?S0)" by blast
  from disconnect_closes_stored_handle[of ?Sa demo_driver] c c1
  have b: "disconnect demo_driver ?Sa = (Inr (), [CallClose 7, Print MsgDisconnected], ?Sa\<lparr>world := 2\<rparr>)"
    by blast
  from disconnect_closes_stored_handle[of ?Sa demo_driver] c c1 c2
  have d: "disconnect demo_driver (?Sa\<lparr>world := 2\<rparr>) =
      (Inr (), [CallClose 7, Print MsgDisconnected], ?Sa\<lparr>world := 3\<rparr>)"
    by blast
  show ?thesis using n c c1 c2 a b d by simp
qed

subsection \<open>execute_query: the two paths\<close>

text \<open>
  C2. On a session that holds a handle: when the query, stripped and in upper case,
  starts with \<^verbatim>\<open>SELECT\<close>, the one driver call made is a fetch of the query as
  given, and when the fetch returns, the count line and every row are printed in
  order, or the line for zero rows, and nothing is raised. For every other query,
  the one driver call is an execute of the query as given, and the status the driver
  returns is printed as it is. A query that is empty after stripping is of the second
  kind.
\<close>

theorem execute_query_dispatch:
  assumes "conn s = Some h"
  shows "(startswith (upper (strip q)) ''SELECT'' \<longrightarrow>
            driver_calls (fst (snd (execute_query drv q s))) = [CallFetch h q]
            \<and> (\<forall>rows w'. drv_fetch drv h q (world s) = (Inr rows, w') \<longrightarrow>
                 execute_query drv q s =
                   (Inr (),
                    CallFetch h q #
                      (if rows = [] then [Print MsgZeroRows]
                       else Print (MsgRows (length rows)) # map (\<lambda>r. Print (MsgRow r)) rows),
                    s\<lparr>world := w'\<rparr>)))
     \<and> (\<not> startswith (upper (strip q)) ''SELECT'' \<longrightarrow>
            driver_calls (fst (snd (execute_query drv q s))) = [CallExecute h q]
            \<and> (\<forall>status w'. drv_execute drv h q (world s) = (Inr status, w') \<longrightarrow>
                 execute_query drv q s =
                   (Inr (), [CallExecute h q, Print (MsgExecuted status)], s\<lparr>world := w'\<rparr>)))
     \<and> (strip q = [] \<longrightarrow> \<not> startswith (upper (strip q)) ''SELECT'')"
proof -
  have rows: "driver_calls (map (\<lambda>r. Print (MsgRow r)) rows) = []" for rows
    by (induction rows) simp_all
  show ?thesis using assms
    by (auto simp: execute_query_def rows upper_def startswith_def
        split: prod.splits sum.splits)
qed


lemma run_select:
  "execute_query demo_driver ''  select 1 '' \<lparr>db_url = Some ''postgres://demo'', conn = Some 7, world = 1\<rparr> =
     (Inr (), [CallFetch 7 ''  select 1 '', Print (MsgRows 1), Print (MsgRow [(''?column?'', ''1'')])],
      \<lparr>db_url = Some ''postgres://demo'', conn = Some 7, world = 2\<rparr>)"
  by code_simp

lemma run_select_none:
  "execute_query demo_driver ''Select 2 where false'' \<lparr>db_url = Some ''postgres://demo'', conn = Some 7, world = 1\<rparr> =
     (Inr (), [CallFetch 7 ''Select 2 where false'', Print MsgZeroRows],
      \<lparr>db_url = Some ''postgres://demo'', conn = Some 7, world = 2\<rparr>)"
  by code_simp

lemma run_blank:
  "execute_query demo_driver ''   '' \<lparr>db_url = Some ''postgres://demo'', conn = Some 7, world = 1\<rparr> =
     (Inr (), [CallExecute 7 ''   '', Print (MsgExecuted ''OK'')],
      \<lparr>db_url = Some ''postgres://demo'', conn = Some 7, world = 2\<rparr>)"
  by code_simp

lemma run_ddl:
  "execute_query demo_driver ''DROP TABLE t; SELECT 1'' \<lparr>db_url = Some ''postgres://demo'', conn = Some 7, world = 1\<rparr> =
     (Inr (), [CallExecute 7 ''DROP TABLE t; SELECT 1'', Print (MsgExecuted ''OK'')],
      \<lparr>db_url = Some ''postgres://demo'', conn = Some 7, world = 2\<rparr>)"
  by code_simp

theorem execute_query_dispatch_witness:
  "conn \<lparr>db_url = Some ''postgres://demo'', conn = Some 7, world = 1::nat\<rparr> = Some 7
   \<and> startswith (upper (strip ''  select 1 '')) ''SELECT''
   \<and> driver_calls (fst (snd (execute_query demo_driver ''  select 1 ''
          \<lparr>db_url = Some ''postgres://demo'', conn = Some 7, world = 1\<rparr>))) = [CallFetch 7 ''  select 1 '']
   \<and> execute_query demo_driver ''  select 1 '' \<lparr>db_url = Some ''postgres://demo'', conn = Some 7, world = 1\<rparr> =
     (Inr (), [CallFetch 7 ''  select 1 '', Print (MsgRows 1), Print (MsgRow [(''?column?'', ''1'')])],
      \<lparr>db_url = Some ''postgres://demo'', conn = Some 7, world = 2\<rparr>)
   \<and> startswith (upper (strip ''Select 2 where false'')) ''SELECT''
   \<and> execute_query demo_driver ''Select 2 where false'' \<lparr>db_url = Some ''postgres://demo'', conn = Some 7, world = 1\<rparr> =
     (Inr (), [CallFetch 7 ''Select 2 where false'', Print MsgZeroRows],
      \<lparr>db_url = Some ''postgres://demo'', conn = Some 7, world = 2\<rparr>)
   \<and> strip ''   '' = []
   \<and> driver_calls (fst (snd (execute_query demo_driver ''   ''
          \<lparr>db_url = Some ''postgres://demo'', conn = Some 7, world = 1\<rparr>))) = [CallExecute 7 ''   '']
   \<and> \<not> startswith (upper (strip ''DROP TABLE t; SELECT 1'')) ''SELECT''
   \<and> execute_query demo_driver ''DROP TABLE t; SELECT 1'' \<lparr>db_url = Some ''postgres://demo'', conn = Some 7, world = 1\<rparr> =
     (Inr (), [CallExecute 7 ''DROP TABLE t; SELECT 1'', Print (MsgExecuted ''OK'')],
      \<lparr>db_url = Some ''postgres://demo'', conn = Some 7, world = 2\<rparr>)
   \<and> startswith (upper (strip (CHR 0xA0 # ''select 1'' @ [CHR 0x85]))) ''SELECT''
   \<and> driver_calls (fst (snd (execute_query demo_driver (CHR 0xA0 # ''select 1'' @ [CHR 0x85])
          \<lparr>db_url = Some ''postgres://demo'', conn = Some 7, world = 1\<rparr>))) =
       [CallFetch 7 (CHR 0xA0 # ''select 1'' @ [CHR 0x85])]"
proof -
  let ?S = "\<lparr>db_url = Some ''postgres://demo'', conn = Some 7, world = 1::nat\<rparr>"
  have c: "conn ?S = Some 7" by simp
  have r1: "startswith (upper (strip ''  select 1 '')) ''SELECT''" by code_simp
  have r2: "startswith (upper (strip ''Select 2 where false'')) ''SELECT''" by code_simp
  have r3: "strip ''   '' = []" by code_simp
  have r4: "\<not> startswith (upper (strip ''DROP TABLE t; SELECT 1'')) ''SELECT''" by code_simp
  note t1 = execute_query_dispatch[OF c, of "''  select 1 ''" demo_driver]
  note t3 = execute_query_dispatch[OF c, of "''   ''" demo_driver]
  from t1 r1 have d1: "driver_calls (fst (snd (execute_query demo_driver ''  select 1 '' ?S))) = [CallFetch 7 ''  select 1 '']"
    by blast
  from t3 r3 have d3: "driver_calls (fst (snd (execute_query demo_driver ''   '' ?S))) = [CallExecute 7 ''   '']"
    by blast
  have r5: "startswith (upper (strip (CHR 0xA0 # ''select 1'' @ [CHR 0x85]))) ''SELECT''"
    by code_simp
  note t5 = execute_query_dispatch[OF c, of "CHR 0xA0 # ''select 1'' @ [CHR 0x85]" demo_driver]
  from t5 r5 have d5: "driver_calls (fst (snd (execute_query demo_driver
      (CHR 0xA0 # ''select 1'' @ [CHR 0x85]) ?S))) = [CallFetch 7 (CHR 0xA0 # ''select 1'' @ [CHR 0x85])]"
    by blast
  show ?thesis
    using c r1 r2 r3 r4 r5 d1 d3 d5 run_select run_select_none run_ddl by simp
qed

subsection \<open>execute_query: failures\<close>

text \<open>
  C6. Without a stored handle \<^verbatim>\<open>execute_query\<close> prints that it is not connected,
  calls nothing and raises nothing. With a handle, an \<^verbatim>\<open>Exception\<close> raised by the
  driver on either path is printed as the failure of this query and
  \<^verbatim>\<open>execute_query\<close> returns normally; the only exceptions that can leave it are
  those outside \<^verbatim>\<open>Exception\<close> (an interrupt). In the interactive loop, a line
  that is a query and whose \<^verbatim>\<open>execute_query\<close> returned, failed or not, is followed
  by the next turn of the loop: the session goes on.
\<close>

theorem execute_query_reports_failures:
  "(conn s = None \<longrightarrow> execute_query drv q s = (Inr (), [Print MsgNotConnected], s))
   \<and> (\<forall>e tr s'. execute_query drv q s = (Inl e, tr, s') \<longrightarrow> \<not> is_Exception e)
   \<and> (\<forall>h m w'. conn s = Some h \<and> startswith (upper (strip q)) ''SELECT'' \<and>
          drv_fetch drv h q (world s) = (Inl (Exception m), w') \<longrightarrow>
        execute_query drv q s =
          (Inr (), [CallFetch h q, Print (MsgQueryFailed m)], s\<lparr>world := w'\<rparr>))
   \<and> (\<forall>h m w'. conn s = Some h \<and> \<not> startswith (upper (strip q)) ''SELECT'' \<and>
          drv_execute drv h q (world s) = (Inl (Exception m), w') \<longrightarrow>
        execute_query drv q s =
          (Inr (), [CallExecute h q, Print (MsgQueryFailed m)], s\<lparr>world := w'\<rparr>))
   \<and> (\<forall>raw rest tr s1. strip raw = q \<and> q \<noteq> [] \<and>
          lower q \<notin> set [''.exit'', ''.quit'', ''.tables''] \<and>
          execute_query drv q s = (Inr (), tr, s1) \<longrightarrow>
        repl drv (Line raw # rest) s =
          (case repl drv rest s1 of
             None \<Rightarrow> None
           | Some (r, tr', s2) \<Rightarrow> Some (r, tr @ tr', s2)))"
proof -
  have a: "conn s = None \<longrightarrow> execute_query drv q s = (Inr (), [Print MsgNotConnected], s)"
    by (simp add: execute_query_def)
  have b: "\<forall>e tr s'. execute_query drv q s = (Inl e, tr, s') \<longrightarrow> \<not> is_Exception e"
    by (auto simp: execute_query_def split: option.splits prod.splits sum.splits if_splits)
  have c: "\<forall>h m w'. conn s = Some h \<and> startswith (upper (strip q)) ''SELECT'' \<and>
          drv_fetch drv h q (world s) = (Inl (Exception m), w') \<longrightarrow>
        execute_query drv q s =
          (Inr (), [CallFetch h q, Print (MsgQueryFailed m)], s\<lparr>world := w'\<rparr>)"
    by (simp add: execute_query_def)
  have d: "\<forall>h m w'. conn s = Some h \<and> \<not> startswith (upper (strip q)) ''SELECT'' \<and>
          drv_execute drv h q (world s) = (Inl (Exception m), w') \<longrightarrow>
        execute_query drv q s =
          (Inr (), [CallExecute h q, Print (MsgQueryFailed m)], s\<lparr>world := w'\<rparr>)"
    by (simp add: execute_query_def)
  have e: "\<forall>raw rest tr s1. strip raw = q \<and> q \<noteq> [] \<and>
          lower q \<notin> set [''.exit'', ''.quit'', ''.tables''] \<and>
          execute_query drv q s = (Inr (), tr, s1) \<longrightarrow>
        repl drv (Line raw # rest) s =
          (case repl drv rest s1 of
             None \<Rightarrow> None
           | Some (r, tr', s2) \<Rightarrow> Some (r, tr @ tr', s2))"
    by (simp add: iteration_def loop_body_def Let_def)
  from a b c d e show ?thesis by blast
qed

lemma run_bad_statement:
  "execute_query demo_driver ''BAD SQL'' \<lparr>db_url = Some ''postgres://demo'', conn = Some 7, world = 1\<rparr> =
     (Inr (), [CallExecute 7 ''BAD SQL'', Print (MsgQueryFailed ''syntax error'')],
      \<lparr>db_url = Some ''postgres://demo'', conn = Some 7, world = 2\<rparr>)"
  by code_simp

lemma run_after_bad_statement:
  "repl demo_driver [Line ''select 1'', Line ''.quit'']
     \<lparr>db_url = Some ''postgres://demo'', conn = Some 7, world = 2\<rparr> =
   Some (Inr (), [CallFetch 7 ''select 1'', Print (MsgRows 1), Print (MsgRow [(''?column?'', ''1'')])],
      \<lparr>db_url = Some ''postgres://demo'', conn = Some 7, world = 3\<rparr>)"
  by code_simp

theorem execute_query_reports_failures_witness:
  "execute_query demo_driver ''select 1'' (DatabaseCLI (Some ''postgres://demo'') 0) =
     (Inr (), [Print MsgNotConnected], DatabaseCLI (Some ''postgres://demo'') 0)
   \<and> drv_execute demo_driver 7 ''BAD SQL'' 1 = (Inl (Exception ''syntax error''), 2)
   \<and> execute_query demo_driver ''BAD SQL'' \<lparr>db_url = Some ''postgres://demo'', conn = Some 7, world = 1\<rparr> =
     (Inr (), [CallExecute 7 ''BAD SQL'', Print (MsgQueryFailed ''syntax error'')],
      \<lparr>db_url = Some ''postgres://demo'', conn = Some 7, world = 2\<rparr>)
   \<and> repl demo_driver [Line ''BAD SQL'', Line ''select 1'', Line ''.quit'']
       \<lparr>db_url = Some ''postgres://demo'', conn = Some 7, world = 1\<rparr> =
     Some (Inr (),
       [CallExecute 7 ''BAD SQL'', Print (MsgQueryFailed ''syntax error''),
        CallFetch 7 ''select 1'', Print (MsgRows 1), Print (MsgRow [(''?column?'', ''1'')])],
       \<lparr>db_url = Some ''postgres://demo'', conn = Some 7, world = 3\<rparr>)"
proof -
  let ?S0 = "DatabaseCLI (Some ''postgres://demo'') (0::nat)"
  let ?Sa = "\<lparr>db_url = Some ''postgres://demo'', conn = Some 7, world = 1::nat\<rparr>"
  have n: "conn ?S0 = None" by (simp add: DatabaseCLI_def)
  have x: "drv_execute demo_driver 7 ''BAD SQL'' 1 = (Inl (Exception ''syntax error''), 2)"
    by code_simp
  have q: "strip ''BAD SQL'' = ''BAD SQL''" by code_simp
  have ne: "''BAD SQL'' \<noteq> []" by simp
  have m: "lower ''BAD SQL'' \<notin> set [''.exit'', ''.quit'', ''.tables'']" by code_simp
  from execute_query_reports_failures[of ?S0 demo_driver "''select 1''"] n
  have a: "execute_query demo_driver ''select 1'' ?S0 = (Inr (), [Print MsgNotConnected], ?S0)"
    by blast
  note t = execute_query_reports_failures[of ?Sa demo_driver "''BAD SQL''"]
  from t q ne m run_bad_statement
  have "repl demo_driver (Line ''BAD SQL'' # [Line ''select 1'', Line ''.quit'']) ?Sa =
      (case repl demo_driver [Line ''select 1'', Line ''.quit'']
              \<lparr>db_url = Some ''postgres://demo'', conn = Some 7, world = 2\<rparr> of
         None \<Rightarrow> None
       | Some (r, tr', s2) \<Rightarrow>
           Some (r, [CallExecute 7 ''BAD SQL'', Print (MsgQueryFailed ''syntax error'')] @ tr', s2))"
    by blast
  then have b: "repl demo_driver [Line ''BAD SQL'', Line ''select 1'', Line ''.quit''] ?Sa =
     Some (Inr (),
       [CallExecute 7 ''BAD SQL'', Print (MsgQueryFailed ''syntax error''),
        CallFetch 7 ''select 1'', Print (MsgRows 1), Print (MsgRow [(''?column?'', ''1'')])],
       \<lparr>db_url = Some ''postgres://demo'', conn = Some 7, world = 3\<rparr>)"
    unfolding run_after_bad_statement by simp
  show ?thesis using a x run_bad_statement b by simp
qed

subsection \<open>run_interactive\<close>

text \<open>
  The claim that the session is in state Disconnected after \<^verbatim>\<open>run_interactive\<close>
  fails: after connecting and leaving by \<^verbatim>\<open>.exit\<close>, handle 7 has been closed but is
  still stored, and the session reads as connected by its own test.
\<close>

theorem run_interactive_state_counterexample:
  "run_interactive demo_driver [Line ''.exit''] (DatabaseCLI (Some ''postgres://demo'') 0) =
     Some (Inr (),
       [Print MsgBanner, CallConnect ''postgres://demo'', Print MsgConnected,
        CallClose 7, Print MsgDisconnected],
       \<lparr>db_url = Some ''postgres://demo'', conn = Some 7, world = 2\<rparr>)
   \<and> state_of \<lparr>db_url = Some ''postgres://demo'', conn = Some 7, world = 2::nat\<rparr> \<noteq> Disconnected"
  by code_simp

lemma disconnect_trace:
  "disconnect drv s = (r, tr, s') \<Longrightarrow> conn s = Some h \<Longrightarrow>
     conn s' = Some h \<and> closes tr = [h] \<and> driver_calls tr = [CallClose h]"
  by (auto simp: disconnect_def split: prod.splits sum.splits)

lemma connect_true:
  "connect drv s = (Inr True, tr, s1) \<Longrightarrow> \<exists>h. conn s1 = Some h \<and> closes tr = []"
  by (auto simp: connect_def split: option.splits prod.splits sum.splits if_splits)

lemma connect_not_true:
  "connect drv s = (c, tr, s1) \<Longrightarrow> c \<noteq> Inr True \<Longrightarrow> conn s1 = conn s \<and> closes tr = []"
  by (auto simp: connect_def split: option.splits prod.splits sum.splits if_splits)

text \<open>
  C3, amended. Whenever \<^verbatim>\<open>run_interactive\<close> returns or raises after
  \<^verbatim>\<open>connect\<close> succeeded, whatever way the loop was left, the driver's close has been
  called exactly once, on the handle \<^verbatim>\<open>connect\<close> stored, and it is the last driver
  call of the run; the handle is still stored afterwards. When \<^verbatim>\<open>connect\<close> did not
  succeed, the loop is not entered, nothing is closed and the stored handle is what it
  was.
\<close>

theorem run_interactive_releases_once:
  assumes run: "run_interactive drv inps s = Some (r, tr, s')"
  shows "(\<forall>tr1 s1. connect drv s = (Inr True, tr1, s1) \<longrightarrow>
            (\<exists>h. conn s1 = Some h \<and> closes tr = [h] \<and> last (driver_calls tr) = CallClose h
                 \<and> conn s' = Some h))
       \<and> (\<forall>c tr1 s1. connect drv s = (c, tr1, s1) \<and> c \<noteq> Inr True \<longrightarrow>
            tr = Print MsgBanner # tr1 \<and> closes tr = [] \<and> conn s' = conn s)"
proof -
  have A: "\<exists>h. conn s1 = Some h \<and> closes tr = [h] \<and> last (driver_calls tr) = CallClose h \<and> conn s' = Some h"
    if c: "connect drv s = (Inr True, tr1, s1)" for tr1 s1
  proof -
    from connect_true[OF c] obtain h where h: "conn s1 = Some h" and c1: "closes tr1 = []" by blast
    from run c obtain r2 tr2 s2 where rp: "repl drv inps s1 = Some (r2, tr2, s2)"
      by (auto simp: run_interactive_def split: option.splits)
    obtain r3 tr3 s3 where d: "disconnect drv s2 = (r3, tr3, s3)" using prod_cases3 by blast
    from repl_keeps[OF rp] h have k: "conn s2 = Some h" "closes tr2 = []" by simp_all
    note dt = disconnect_trace[OF d k(1)]
    from run c rp d have t: "tr = Print MsgBanner # tr1 @ tr2 @ tr3" and s: "s' = s3"
      by (auto simp: run_interactive_def split: sum.splits)
    have "closes tr = [h]" unfolding t using c1 k dt by (simp add: closes_append)
    moreover have "last (driver_calls tr) = CallClose h"
      unfolding t using dt by (simp add: driver_calls_append)
    ultimately show ?thesis using h dt s by simp
  qed
  have B: "tr = Print MsgBanner # tr1 \<and> closes tr = [] \<and> conn s' = conn s"
    if c: "connect drv s = (c, tr1, s1)" and n: "c \<noteq> Inr True" for c tr1 s1
  proof -
    from n have "(\<exists>e. c = Inl e) \<or> c = Inr False" by (cases c) auto
    with run c have "tr = Print MsgBanner # tr1" "s' = s1"
      by (auto simp: run_interactive_def)
    with connect_not_true[OF c n] show ?thesis by simp
  qed
  from A B show ?thesis by blast
qed


text \<open>
  Two runs: one left by an interrupt at the prompt, one by an exception outside
  \<^verbatim>\<open>Exception\<close> (before it, an \<^verbatim>\<open>Exception\<close> at the prompt is printed and
  the loop goes on).
\<close>

lemma run_until_interrupt:
  "run_interactive demo_driver [Line ''select 1'', Raises KeyboardInterrupt]
       (DatabaseCLI (Some ''postgres://demo'') 0) =
     Some (Inr (),
       [Print MsgBanner, CallConnect ''postgres://demo'', Print MsgConnected,
        CallFetch 7 ''select 1'', Print (MsgRows 1), Print (MsgRow [(''?column?'', ''1'')]),
        Print MsgInterrupted,
        CallClose 7, Print MsgDisconnected],
       \<lparr>db_url = Some ''postgres://demo'', conn = Some 7, world = 3\<rparr>)"
  by code_simp

lemma run_until_cancelled:
  "run_interactive demo_driver [Raises (Exception ''EOF''), Raises (BaseException ''cancelled'')]
       (DatabaseCLI (Some ''postgres://demo'') 0) =
     Some (Inl (BaseException ''cancelled''),
       [Print MsgBanner, CallConnect ''postgres://demo'', Print MsgConnected,
        Print (MsgError ''EOF''),
        CallClose 7, Print MsgDisconnected],
       \<lparr>db_url = Some ''postgres://demo'', conn = Some 7, world = 2\<rparr>)"
  by code_simp

lemma run_connect:
  "connect demo_driver (DatabaseCLI (Some ''postgres://demo'') 0) =
     (Inr True, [CallConnect ''postgres://demo'', Print MsgConnected],
      \<lparr>db_url = Some ''postgres://demo'', conn = Some 7, world = 1\<rparr>)"
  by code_simp

theorem run_interactive_releases_once_witness:
  "run_interactive demo_driver [Line ''select 1'', Raises KeyboardInterrupt]
       (DatabaseCLI (Some ''postgres://demo'') 0) =
     Some (Inr (),
       [Print MsgBanner, CallConnect ''postgres://demo'', Print MsgConnected,
        CallFetch 7 ''select 1'', Print (MsgRows 1), Print (MsgRow [(''?column?'', ''1'')]),
        Print MsgInterrupted,
        CallClose 7, Print MsgDisconnected],
       \<lparr>db_url = Some ''postgres://demo'', conn = Some 7, world = 3\<rparr>)
   \<and> connect demo_driver (DatabaseCLI (Some ''postgres://demo'') 0) =
     (Inr True, [CallConnect ''postgres://demo'', Print MsgConnected],
      \<lparr>db_url = Some ''postgres://demo'', conn = Some 7, world = 1\<rparr>)
   \<and> closes
       [Print MsgBanner, CallConnect ''postgres://demo'', Print MsgConnected,
        CallFetch 7 ''select 1'', Print (MsgRows 1), Print (MsgRow [(''?column?'', ''1'')]),
        Print MsgInterrupted,
        CallClose 7, Print MsgDisconnected] = [7]
   \<and> run_interactive demo_driver [Raises (Exception ''EOF''), Raises (BaseException ''cancelled'')]
       (DatabaseCLI (Some ''postgres://demo'') 0) =
     Some (Inl (BaseException ''cancelled''),
       [Print MsgBanner, CallConnect ''postgres://demo'', Print MsgConnected,
        Print (MsgError ''EOF''),
        CallClose 7, Print MsgDisconnected],
       \<lparr>db_url = Some ''postgres://demo'', conn = Some 7, world = 2\<rparr>)
   \<and> closes
       [Print MsgBanner, CallConnect ''postgres://demo'', Print MsgConnected,
        Print (MsgError ''EOF''),
        CallClose 7, Print MsgDisconnected] = [7]"
proof -
  from run_interactive_releases_once[OF run_until_interrupt] run_connect
  have a: "closes
       [Print MsgBanner, CallConnect ''postgres://demo'', Print MsgConnected,
        CallFetch 7 ''select 1'', Print (MsgRows 1), Print (MsgRow [(''?column?'', ''1'')]),
        Print MsgInterrupted,
        CallClose 7, Print MsgDisconnected] = [7]"
    by auto
  from run_interactive_releases_once[OF run_until_cancelled] run_connect
  have b: "closes
       [Print MsgBanner, CallConnect ''postgres://demo'', Print MsgConnected,
        Print (MsgError ''EOF''),
        CallClose 7, Print MsgDisconnected] = [7]"
    by auto
  from a b run_until_interrupt run_until_cancelled run_connect show ?thesis by blast
qed

subsection \<open>main: the exit status\<close>

text \<open>
  The claim that a failing one-shot invocation exits with a status that is not 0
  fails: with a URL the driver cannot connect to, and with a query the server rejects,
  \<^verbatim>\<open>main\<close> returns normally and the status is 0.
\<close>

theorem one_shot_exit_status_counterexample:
  "main demo_driver False (Some ''SELECT 1'') [] (DatabaseCLI (Some ''postgres://other'') 0) =
     Some (Inr (),
       [CallConnect ''postgres://other'', Print (MsgConnectionFailed ''could not connect'')],
       \<lparr>db_url = Some ''postgres://other'', conn = None, world = 1\<rparr>)
   \<and> map_option (\<lambda>x. exit_status (fst x))
        (main demo_driver False (Some ''SELECT 1'') [] (DatabaseCLI (Some ''postgres://other'') 0)) = Some 0
   \<and> main demo_driver False (Some ''SELECT nothing'') [] (DatabaseCLI (Some ''postgres://demo'') 0) =
     Some (Inr (),
       [CallConnect ''postgres://demo'', Print MsgConnected,
        CallFetch 7 ''SELECT nothing'', Print (MsgQueryFailed ''syntax error''),
        CallClose 7, Print MsgDisconnected],
       \<lparr>db_url = Some ''postgres://demo'', conn = Some 7, world = 3\<rparr>)
   \<and> map_option (\<lambda>x. exit_status (fst x))
        (main demo_driver False (Some ''SELECT nothing'') [] (DatabaseCLI (Some ''postgres://demo'') 0)) = Some 0"
  by code_simp

lemma connect_inl: "connect drv s = (Inl e, tr, s') \<Longrightarrow> \<not> is_Exception e"
  by (auto simp: connect_def split: option.splits prod.splits sum.splits if_splits)

lemma execute_query_inl: "execute_query drv q s = (Inl e, tr, s') \<Longrightarrow> \<not> is_Exception e"
  by (auto simp: execute_query_def split: option.splits prod.splits sum.splits if_splits)

lemma disconnect_inl:
  "disconnect drv s = (Inl e, tr, s') \<Longrightarrow> \<exists>h w w'. drv_close drv h w = (Inl e, w')"
  by (auto simp: disconnect_def split: option.splits prod.splits sum.splits)

lemma iteration_inl: "iteration drv inp s = (Inl e, tr, s') \<Longrightarrow> \<not> is_Exception e"
  by (auto simp: iteration_def split: prod.splits sum.splits exn.splits)

lemma repl_inl: "repl drv inps s = Some (Inl e, tr, s') \<Longrightarrow> \<not> is_Exception e"
proof (induction inps arbitrary: s tr)
  case Nil
  then show ?case by simp
next
  case (Cons inp inps)
  obtain c tr1 s1 where it: "iteration drv inp s = (c, tr1, s1)" using prod_cases3 by blast
  show ?case
  proof (cases c)
    case (Inl x)
    with Cons.prems it have "x = e" by simp
    with iteration_inl it Inl show ?thesis by blast
  next
    case (Inr ctl)
    show ?thesis
    proof (cases ctl)
      case Break
      with Cons.prems it Inr show ?thesis by simp
    next
      case Continue
      with Cons.prems it Inr obtain tr2 where "repl drv inps s1 = Some (Inl e, tr2, s')"
        by (auto split: option.splits)
      from Cons.IH[OF this] show ?thesis .
    qed
  qed
qed

lemma run_interactive_inl:
  assumes "run_interactive drv inps s = Some (Inl e, tr, s')"
  shows "\<not> is_Exception e \<or> (\<exists>h w w'. drv_close drv h w = (Inl e, w'))"
proof -
  obtain c tr1 s1 where c: "connect drv s = (c, tr1, s1)" using prod_cases3 by blast
  show ?thesis
  proof (cases c)
    case (Inl x)
    with assms c have "x = e" by (simp add: run_interactive_def)
    with connect_inl c Inl show ?thesis by blast
  next
    case (Inr ok)
    with assms c have ok: "ok" by (cases ok) (simp_all add: run_interactive_def)
    from assms c Inr ok obtain r2 tr2 s2 where rp: "repl drv inps s1 = Some (r2, tr2, s2)"
      by (auto simp: run_interactive_def split: option.splits)
    obtain r3 tr3 s3 where d: "disconnect drv s2 = (r3, tr3, s3)" using prod_cases3 by blast
    show ?thesis
    proof (cases r3)
      case (Inl x)
      with assms c \<open>c = Inr ok\<close> ok rp d have "x = e" by (simp add: run_interactive_def)
      with disconnect_inl d Inl show ?thesis by blast
    next
      case (Inr u)
      with assms c \<open>c = Inr ok\<close> ok rp d have "r2 = Inl e" by (simp add: run_interactive_def)
      with repl_inl rp show ?thesis by blast
    qed
  qed
qed

lemma exit_status_zero: "exit_status r = 0 \<longleftrightarrow> r = Inr ()"
  by (cases r rule: exit_status.cases) simp_all

text \<open>
  C9, amended. In both modes the status is 0 exactly when \<^verbatim>\<open>main\<close> returns
  normally, and an exception leaves \<^verbatim>\<open>main\<close> only if it is outside
  \<^verbatim>\<open>Exception\<close> or was raised by the driver's close. \<^verbatim>\<open>main\<close> returns
  normally, with status 0, when \<^verbatim>\<open>connect\<close> returns false, in both modes; in
  one-shot mode (a non-empty query, no interactive flag) when \<^verbatim>\<open>connect\<close>
  succeeds, \<^verbatim>\<open>execute_query\<close> returns (it returns after a reported failure as
  after a success) and \<^verbatim>\<open>disconnect\<close> returns; in interactive mode when
  \<^verbatim>\<open>connect\<close> succeeds, the loop is left without an exception and
  \<^verbatim>\<open>disconnect\<close> returns. In one-shot mode \<^verbatim>\<open>main\<close> always comes to an end.
\<close>

theorem main_exit_status:
  "(\<forall>r tr s'. main drv interactive query inps cli0 = Some (r, tr, s') \<longrightarrow>
       (exit_status r = 0 \<longleftrightarrow> r = Inr ()))
   \<and> (\<forall>e tr s'. main drv interactive query inps cli0 = Some (Inl e, tr, s') \<longrightarrow>
       \<not> is_Exception e \<or> (\<exists>h w w'. drv_close drv h w = (Inl e, w')))
   \<and> (\<forall>tr s1. connect drv cli0 = (Inr False, tr, s1) \<longrightarrow>
       main drv interactive query inps cli0 =
         Some (Inr (),
               (if interactive \<or> query = None \<or> query = Some [] then Print MsgBanner # tr else tr),
               s1)
       \<and> map_option (\<lambda>x. exit_status (fst x)) (main drv interactive query inps cli0) = Some 0)
   \<and> (\<forall>q tr s1 tr2 s2 tr3 s3. query = Some q \<and> q \<noteq> [] \<and> \<not> interactive \<and>
         connect drv cli0 = (Inr True, tr, s1) \<and> execute_query drv q s1 = (Inr (), tr2, s2) \<and>
         disconnect drv s2 = (Inr (), tr3, s3) \<longrightarrow>
       main drv interactive query inps cli0 = Some (Inr (), tr @ tr2 @ tr3, s3)
       \<and> map_option (\<lambda>x. exit_status (fst x)) (main drv interactive query inps cli0) = Some 0)
   \<and> (\<forall>q. query = Some q \<and> q \<noteq> [] \<and> \<not> interactive \<longrightarrow>
         (\<exists>x. main drv interactive query inps cli0 = Some x))
   \<and> (\<forall>tr s1 tr2 s2 tr3 s3. (interactive \<or> query = None \<or> query = Some []) \<and>
         connect drv cli0 = (Inr True, tr, s1) \<and> repl drv inps s1 = Some (Inr (), tr2, s2) \<and>
         disconnect drv s2 = (Inr (), tr3, s3) \<longrightarrow>
       main drv interactive query inps cli0 = Some (Inr (), Print MsgBanner # tr @ tr2 @ tr3, s3)
       \<and> map_option (\<lambda>x. exit_status (fst x)) (main drv interactive query inps cli0) = Some 0)"
proof (cases "interactive \<or> query = None \<or> query = Some []")
  case True
  then have M: "main drv interactive query inps cli0 = run_interactive drv inps cli0"
    by (auto simp: main_def split: option.splits)
  have a: "\<forall>r tr s'. main drv interactive query inps cli0 = Some (r, tr, s') \<longrightarrow>
       (exit_status r = 0 \<longleftrightarrow> r = Inr ())"
    by (simp add: exit_status_zero)
  have b: "\<forall>e tr s'. main drv interactive query inps cli0 = Some (Inl e, tr, s') \<longrightarrow>
       \<not> is_Exception e \<or> (\<exists>h w w'. drv_close drv h w = (Inl e, w'))"
    unfolding M using run_interactive_inl by blast
  have c: "\<forall>tr s1. connect drv cli0 = (Inr False, tr, s1) \<longrightarrow>
       main drv interactive query inps cli0 =
         Some (Inr (),
               (if interactive \<or> query = None \<or> query = Some [] then Print MsgBanner # tr else tr),
               s1)
       \<and> map_option (\<lambda>x. exit_status (fst x)) (main drv interactive query inps cli0) = Some 0"
    unfolding M using True by (simp add: run_interactive_def)
  have d: "\<forall>tr s1 tr2 s2 tr3 s3. (interactive \<or> query = None \<or> query = Some []) \<and>
         connect drv cli0 = (Inr True, tr, s1) \<and> repl drv inps s1 = Some (Inr (), tr2, s2) \<and>
         disconnect drv s2 = (Inr (), tr3, s3) \<longrightarrow>
       main drv interactive query inps cli0 = Some (Inr (), Print MsgBanner # tr @ tr2 @ tr3, s3)
       \<and> map_option (\<lambda>x. exit_status (fst x)) (main drv interactive query inps cli0) = Some 0"
    unfolding M by (simp add: run_interactive_def)
  from True a b c d show ?thesis by blast
next
  case False
  then obtain q where q: "query = Some q" "q \<noteq> []" and i: "\<not> interactive" by auto
  have M: "main drv interactive query inps cli0 =
      (case connect drv cli0 of
         (Inl e, tr, s1) \<Rightarrow> Some (Inl e, tr, s1)
       | (Inr False, tr, s1) \<Rightarrow> Some (Inr (), tr, s1)
       | (Inr True, tr, s1) \<Rightarrow>
           (case execute_query drv q s1 of
              (Inl e, tr2, s2) \<Rightarrow> Some (Inl e, tr @ tr2, s2)
            | (Inr u, tr2, s2) \<Rightarrow>
                (case disconnect drv s2 of
                   (r, tr3, s3) \<Rightarrow> Some (r, tr @ tr2 @ tr3, s3))))"
    using q i by (simp add: main_def)
  have a: "\<forall>r tr s'. main drv interactive query inps cli0 = Some (r, tr, s') \<longrightarrow>
       (exit_status r = 0 \<longleftrightarrow> r = Inr ())"
    by (simp add: exit_status_zero)
  have b: "\<not> is_Exception e \<or> (\<exists>h w w'. drv_close drv h w = (Inl e, w'))"
    if m: "main drv interactive query inps cli0 = Some (Inl e, tr, s')" for e tr s'
  proof -
    obtain c0 tr1 s1 where c0: "connect drv cli0 = (c0, tr1, s1)" using prod_cases3 by blast
    show ?thesis
    proof (cases c0)
      case (Inl x)
      with m c0 have "x = e" unfolding M by simp
      with connect_inl c0 Inl show ?thesis by blast
    next
      case (Inr ok)
      with m c0 have ok: "ok" unfolding M by (cases ok) simp_all
      obtain r2 tr2 s2 where e2: "execute_query drv q s1 = (r2, tr2, s2)" using prod_cases3 by blast
      show ?thesis
      proof (cases r2)
        case (Inl x)
        with m c0 Inr ok e2 have "x = e" unfolding M by simp
        with execute_query_inl e2 Inl show ?thesis by blast
      next
        case (Inr u)
        obtain r3 tr3 s3 where d: "disconnect drv s2 = (r3, tr3, s3)" using prod_cases3 by blast
        with m c0 \<open>c0 = Inr ok\<close> ok e2 Inr have "r3 = Inl e" unfolding M by simp
        with disconnect_inl d show ?thesis by blast
      qed
    qed
  qed
  have c: "\<forall>tr s1. connect drv cli0 = (Inr False, tr, s1) \<longrightarrow>
       main drv interactive query inps cli0 =
         Some (Inr (),
               (if interactive \<or> query = None \<or> query = Some [] then Print MsgBanner # tr else tr),
               s1)
       \<and> map_option (\<lambda>x. exit_status (fst x)) (main drv interactive query inps cli0) = Some 0"
    unfolding M using q i by simp
  have d: "\<forall>q' tr s1 tr2 s2 tr3 s3. query = Some q' \<and> q' \<noteq> [] \<and> \<not> interactive \<and>
         connect drv cli0 = (Inr True, tr, s1) \<and> execute_query drv q' s1 = (Inr (), tr2, s2) \<and>
         disconnect drv s2 = (Inr (), tr3, s3) \<longrightarrow>
       main drv interactive query inps cli0 = Some (Inr (), tr @ tr2 @ tr3, s3)
       \<and> map_option (\<lambda>x. exit_status (fst x)) (main drv interactive query inps cli0) = Some 0"
    unfolding M using q by simp
  have e: "\<exists>x. main drv interactive query inps cli0 = Some x"
    unfolding M by (simp split: prod.splits sum.splits bool.splits)
  from False a b c d e show ?thesis by blast
qed

lemma run_one_shot_no_connection:
  "connect demo_driver (DatabaseCLI (Some ''postgres://other'') 0) =
     (Inr False,
      [CallConnect ''postgres://other'', Print (MsgConnectionFailed ''could not connect'')],
      \<lparr>db_url = Some ''postgres://other'', conn = None, world = 1\<rparr>)"
  by code_simp

lemma run_interactive_session:
  "repl demo_driver [Line ''BAD SQL'', Line ''.quit'']
       \<lparr>db_url = Some ''postgres://demo'', conn = Some 7, world = 1\<rparr> =
     Some (Inr (), [CallExecute 7 ''BAD SQL'', Print (MsgQueryFailed ''syntax error'')],
       \<lparr>db_url = Some ''postgres://demo'', conn = Some 7, world = 2\<rparr>)"
  by code_simp

lemma run_disconnect:
  "disconnect demo_driver \<lparr>db_url = Some ''postgres://demo'', conn = Some 7, world = 2\<rparr> =
     (Inr (), [CallClose 7, Print MsgDisconnected],
      \<lparr>db_url = Some ''postgres://demo'', conn = Some 7, world = 3\<rparr>)"
  by code_simp

theorem main_exit_status_witness:
  "connect demo_driver (DatabaseCLI (Some ''postgres://other'') 0) =
     (Inr False,
      [CallConnect ''postgres://other'', Print (MsgConnectionFailed ''could not connect'')],
      \<lparr>db_url = Some ''postgres://other'', conn = None, world = 1\<rparr>)
   \<and> main demo_driver False (Some ''SELECT 1'') [] (DatabaseCLI (Some ''postgres://other'') 0) =
     Some (Inr (),
       [CallConnect ''postgres://other'', Print (MsgConnectionFailed ''could not connect'')],
       \<lparr>db_url = Some ''postgres://other'', conn = None, world = 1\<rparr>)
   \<and> map_option (\<lambda>x. exit_status (fst x))
        (main demo_driver False (Some ''SELECT 1'') [] (DatabaseCLI (Some ''postgres://other'') 0)) = Some 0
   \<and> main demo_driver True None [Line ''BAD SQL'', Line ''.quit'']
        (DatabaseCLI (Some ''postgres://demo'') 0) =
     Some (Inr (),
       [Print MsgBanner, CallConnect ''postgres://demo'', Print MsgConnected,
        CallExecute 7 ''BAD SQL'', Print (MsgQueryFailed ''syntax error''),
        CallClose 7, Print MsgDisconnected],
       \<lparr>db_url = Some ''postgres://demo'', conn = Some 7, world = 3\<rparr>)
   \<and> map_option (\<lambda>x. exit_status (fst x))
        (main demo_driver True None [Line ''BAD SQL'', Line ''.quit'']
           (DatabaseCLI (Some ''postgres://demo'') 0)) = Some 0"
proof -
  note t1 = main_exit_status[of demo_driver False "Some ''SELECT 1''" "[]"
      "DatabaseCLI (Some ''postgres://other'') 0"]
  note c3 = t1[THEN conjunct2, THEN conjunct2, THEN conjunct1, rule_format,
      OF run_one_shot_no_connection]
  from c3 have a: "main demo_driver False (Some ''SELECT 1'') [] (DatabaseCLI (Some ''postgres://other'') 0) =
     Some (Inr (),
       [CallConnect ''postgres://other'', Print (MsgConnectionFailed ''could not connect'')],
       \<lparr>db_url = Some ''postgres://other'', conn = None, world = 1\<rparr>)
   \<and> map_option (\<lambda>x. exit_status (fst x))
        (main demo_driver False (Some ''SELECT 1'') [] (DatabaseCLI (Some ''postgres://other'') 0)) = Some 0"
    by simp
  note t2 = main_exit_status[of demo_driver True None "[Line ''BAD SQL'', Line ''.quit'']"
      "DatabaseCLI (Some ''postgres://demo'') 0"]
  have prem: "(True \<or> (None::string option) = None \<or> (None::string option) = Some []) \<and>
      connect demo_driver (DatabaseCLI (Some ''postgres://demo'') 0) =
        (Inr True, [CallConnect ''postgres://demo'', Print MsgConnected],
         \<lparr>db_url = Some ''postgres://demo'', conn = Some 7, world = 1\<rparr>) \<and>
      repl demo_driver [Line ''BAD SQL'', Line ''.quit'']
        \<lparr>db_url = Some ''postgres://demo'', conn = Some 7, world = 1\<rparr> =
        Some (Inr (), [CallExecute 7 ''BAD SQL'', Print (MsgQueryFailed ''syntax error'')],
          \<lparr>db_url = Some ''postgres://demo'', conn = Some 7, world = 2\<rparr>) \<and>
      disconnect demo_driver \<lparr>db_url = Some ''postgres://demo'', conn = Some 7, world = 2\<rparr> =
        (Inr (), [CallClose 7, Print MsgDisconnected],
         \<lparr>db_url = Some ''postgres://demo'', conn = Some 7, world = 3\<rparr>)"
    using run_connect run_interactive_session run_disconnect by simp
  note c6 = t2[THEN conjunct2, THEN conjunct2, THEN conjunct2, THEN conjunct2, THEN conjunct2,
      rule_format, OF prem]
  from c6 have b: "main demo_driver True None [Line ''BAD SQL'', Line ''.quit'']
        (DatabaseCLI (Some ''postgres://demo'') 0) =
     Some (Inr (),
       [Print MsgBanner, CallConnect ''postgres://demo'', Print MsgConnected,
        CallExecute 7 ''BAD SQL'', Print (MsgQueryFailed ''syntax error''),
        CallClose 7, Print MsgDisconnected],
       \<lparr>db_url = Some ''postgres://demo'', conn = Some 7, world = 3\<rparr>)
   \<and> map_option (\<lambda>x. exit_status (fst x))
        (main demo_driver True None [Line ''BAD SQL'', Line ''.quit'']
           (DatabaseCLI (Some ''postgres://demo'') 0)) = Some 0"
    by simp
  from a b run_one_shot_no_connection show ?thesis by simp
qed

section \<open>Construction of the embedding service\<close>

text \<open>
  C8. The constructor catches nothing: whatever the configuration step raises leaves
  the constructor, after the first log line and before any service object exists, so
  no call can recover from it. With the configuration step as the specification
  describes it, construction therefore fails whenever the credential is missing or
  invalid, and with a valid one it yields the service with dimension 768.
\<close>

theorem embedding_service_construction:
  "(\<forall>e. configure api_key = Inl e \<longrightarrow>
       EmbeddingService_init configure api_key = (Inl e, [LogInitializing]))
   \<and> ((api_key = None \<or> (\<exists>k. api_key = Some k \<and> \<not> valid k)) \<longrightarrow>
        (\<exists>e. EmbeddingService_init (configure_credential valid) api_key = (Inl e, [LogInitializing])))
   \<and> (\<forall>k. api_key = Some k \<and> valid k \<longrightarrow>
        EmbeddingService_init (configure_credential valid) api_key =
          (Inr \<lparr>service_dim = 768\<rparr>, [LogInitializing, LogInitialized 768]))"
  by (auto simp: EmbeddingService_init_def configure_credential_def embedding_dim_def)

theorem embedding_service_construction_witness:
  "EmbeddingService_init (configure_credential (\<lambda>k. k = ''good-key'')) None =
     (Inl (Exception ''missing API credential''), [LogInitializing])
   \<and> EmbeddingService_init (configure_credential (\<lambda>k. k = ''good-key'')) (Some ''bad-key'') =
     (Inl (Exception ''invalid API credential''), [LogInitializing])
   \<and> EmbeddingService_init (configure_credential (\<lambda>k. k = ''good-key'')) (Some ''good-key'') =
     (Inr \<lparr>service_dim = 768\<rparr>, [LogInitializing, LogInitialized 768])"
proof -
  let ?v = "\<lambda>k. k = ''good-key''"
  have a: "configure_credential ?v None = Inl (Exception ''missing API credential'')"
    by (simp add: configure_credential_def)
  have b: "configure_credential ?v (Some ''bad-key'') = Inl (Exception ''invalid API credential'')"
    by (simp add: configure_credential_def)
  have c: "?v ''good-key''" by simp
  from embedding_service_construction[of "configure_credential ?v" None ?v] a
  have 1: "EmbeddingService_init (configure_credential ?v) None =
     (Inl (Exception ''missing API credential''), [LogInitializing])" by blast
  from embedding_service_construction[of "configure_credential ?v" "Some ''bad-key''" ?v] b
  have 2: "EmbeddingService_init (configure_credential ?v) (Some ''bad-key'') =
     (Inl (Exception ''invalid API credential''), [LogInitializing])" by blast
  from embedding_service_construction[of "configure_credential ?v" "Some ''good-key''" ?v] c
  have 3: "EmbeddingService_init (configure_credential ?v) (Some ''good-key'') =
     (Inr \<lparr>service_dim = 768\<rparr>, [LogInitializing, LogInitialized 768])" by blast
  from 1 2 3 show ?thesis by blast
qed

end
